theory Spec2Isabelle
  imports Complex_Main
begin

section \<open>Data model (types/task.ts)\<close>

text \<open>
  Timestamps. The application stores instants as ISO-8601 strings and turns them into
  \<^verbatim>\<open>Date\<close> objects with \<^verbatim>\<open>new Date(s)\<close>. A \<^verbatim>\<open>Date\<close>, and the string that
  denotes it, is represented here by its wall-clock time in milliseconds counted from
  1970-01-01T00:00:00.000 of the local zone. The local-time operations the modelled code
  uses (\<^verbatim>\<open>setHours\<close>, \<^verbatim>\<open>getDay\<close>, \<^verbatim>\<open>setDate\<close>, \<^verbatim>\<open>getFullYear\<close>, the local-time
  constructor) act on the wall-clock time alone, and the comparisons of the week filter
  are between local midnights and last milliseconds of local days, whose order is the
  order of their wall-clock times. \<^verbatim>\<open>getTime()\<close> is the one operation that needs the
  offset of the zone from UTC; it takes the zone as a parameter (see the calendar
  engine). The hour a clock skips when summer time begins and the hour it repeats when
  summer time ends, in which a wall-clock time stands for no instant or for two, and the
  rounding of floating-point numbers are outside the model.
\<close>

type_synonym timestamp = int

datatype TaskStatus = Upcoming | InProgress | Completed | OnHold

datatype TaskPriority = Low | Medium | High | Urgent

record Task =
  task_id :: string
  content :: string
  status :: TaskStatus
  priority :: TaskPriority
  deadline :: "string option"
  tags :: "string list"
  createdAt :: timestamp
  completedAt :: "timestamp option"
  updatedAt :: timestamp
  userId :: "string option"
  task_order :: int

record WeekInfo =
  year :: int
  week :: int
  startDate :: timestamp
  endDate :: timestamp

text \<open>
  \<^verbatim>\<open>UpdateTaskInput = Partial<Omit<Task, 'id' | 'createdAt' | 'userId'>>\<close>: every field
  may be absent (\<open>None\<close>). For the two nullable fields the outer option is "absent"
  (\<^verbatim>\<open>undefined\<close>) and the inner one is \<^verbatim>\<open>null\<close>.
\<close>

record UpdateTaskInput =
  u_content :: "string option"
  u_status :: "TaskStatus option"
  u_priority :: "TaskPriority option"
  u_deadline :: "string option option"
  u_tags :: "string list option"
  u_completedAt :: "timestamp option option"
  u_updatedAt :: "timestamp option"
  u_order :: "int option"

text \<open>A thrown \<^verbatim>\<open>new Error(message)\<close>.\<close>

datatype js_error = Error string

section \<open>Day arithmetic on dates (lib/date-utils.ts)\<close>

definition msPerDay :: int where
  "msPerDay = 86400000"

text \<open>\<^verbatim>\<open>d.setHours(0, 0, 0, 0)\<close> and \<^verbatim>\<open>d.setHours(23, 59, 59, 999)\<close>.\<close>

definition startOfDay :: "timestamp \<Rightarrow> timestamp" where
  "startOfDay t = (t div msPerDay) * msPerDay"

definition endOfDay :: "timestamp \<Rightarrow> timestamp" where
  "endOfDay t = (t div msPerDay) * msPerDay + (msPerDay - 1)"

definition isDateInWeek :: "timestamp \<Rightarrow> WeekInfo \<Rightarrow> bool" where
  "isDateInWeek date weekInfo =
     (let d = startOfDay date;
          start = startOfDay (startDate weekInfo);
          end = endOfDay (endDate weekInfo)
      in d \<ge> start \<and> d \<le> end)"

section \<open>Week filter (lib/filter-utils.ts)\<close>

definition filterTasksByWeekInfo :: "Task list \<Rightarrow> WeekInfo \<Rightarrow> bool \<Rightarrow> Task list" where
  "filterTasksByWeekInfo tasks weekInfo showAll =
     (if showAll then tasks
      else filter (\<lambda>task.
             if status task \<noteq> Completed then True
             else (case completedAt task of
                     Some c \<Rightarrow> isDateInWeek c weekInfo
                   | None \<Rightarrow> False)) tasks)"


section \<open>Repository backends (services/storage)\<close>

text \<open>
  \<^verbatim>\<open>CreateTaskInput\<close>: a task without the generated fields, the order optional.
\<close>

record CreateTaskInput =
  c_content :: string
  c_status :: TaskStatus
  c_priority :: TaskPriority
  c_deadline :: "string option"
  c_tags :: "string list"
  c_userId :: "string option"
  c_order :: "int option"

subsection \<open>The update both backends build\<close>

text \<open>
  \<^verbatim>\<open>LocalStorageAdapter.update\<close> and \<^verbatim>\<open>IndexedDBStorageAdapter.update\<close> contain the
  same statements between the lookup of the existing task and the write: three
  successive \<^verbatim>\<open>if\<close>s assigning \<^verbatim>\<open>completedAt\<close> (none of them an \<^verbatim>\<open>else\<close>), then
  the object literal
  \<^verbatim>\<open>{ ...existingTask, ...updates, id, createdAt, updatedAt: now, completedAt }\<close>.
\<close>

definition newCompletedAt :: "Task \<Rightarrow> UpdateTaskInput \<Rightarrow> timestamp \<Rightarrow> timestamp option" where
  "newCompletedAt existingTask updates now =
     (let c0 = completedAt existingTask;
          c1 = (if u_status updates = Some Completed \<and> status existingTask \<noteq> Completed
                then Some now else c0);
          c2 = (if u_status updates \<noteq> None \<and> u_status updates \<noteq> Some Completed
                   \<and> status existingTask = Completed
                then None else c1);
          c3 = (case u_completedAt updates of Some v \<Rightarrow> v | None \<Rightarrow> c2)
      in c3)"

definition updatedTask :: "Task \<Rightarrow> UpdateTaskInput \<Rightarrow> timestamp \<Rightarrow> Task" where
  "updatedTask existingTask updates now =
     \<lparr> task_id = task_id existingTask,
       content = (case u_content updates of Some v \<Rightarrow> v | None \<Rightarrow> content existingTask),
       status = (case u_status updates of Some v \<Rightarrow> v | None \<Rightarrow> status existingTask),
       priority = (case u_priority updates of Some v \<Rightarrow> v | None \<Rightarrow> priority existingTask),
       deadline = (case u_deadline updates of Some v \<Rightarrow> v | None \<Rightarrow> deadline existingTask),
       tags = (case u_tags updates of Some v \<Rightarrow> v | None \<Rightarrow> tags existingTask),
       createdAt = createdAt existingTask,
       completedAt = newCompletedAt existingTask updates now,
       updatedAt = now,
       userId = userId existingTask,
       task_order = (case u_order updates of Some v \<Rightarrow> v | None \<Rightarrow> task_order existingTask) \<rparr>"

subsection \<open>LocalStorageAdapter\<close>

text \<open>
  The adapter keeps the whole collection as one JSON array under one key; its state is
  the list \<^verbatim>\<open>getTasks()\<close> reads and \<^verbatim>\<open>saveTasks()\<close> replaces. A write the browser
  refuses is logged and dropped by \<^verbatim>\<open>saveTasks()\<close>; the model is of the writes that
  succeed.
\<close>

fun findIndex :: "('a \<Rightarrow> bool) \<Rightarrow> 'a list \<Rightarrow> nat option" where
  "findIndex p [] = None"
| "findIndex p (x # xs) = (if p x then Some 0 else map_option Suc (findIndex p xs))"

definition notFound :: "string \<Rightarrow> js_error" where
  "notFound ident = Error (''Task with id '' @ ident @ '' not found'')"

definition LocalStorage_update ::
  "timestamp \<Rightarrow> string \<Rightarrow> UpdateTaskInput \<Rightarrow> Task list \<Rightarrow> js_error + (Task \<times> Task list)" where
  "LocalStorage_update now ident updates tasks =
     (case findIndex (\<lambda>t. task_id t = ident) tasks of
        None \<Rightarrow> Inl (notFound ident)
      | Some index \<Rightarrow>
          (let t = updatedTask (tasks ! index) updates now
           in Inr (t, tasks[index := t])))"

definition LocalStorage_bulkUpdate :: "timestamp \<Rightarrow> Task list \<Rightarrow> Task list \<Rightarrow> Task list \<times> Task list" where
  "LocalStorage_bulkUpdate now updatedTasks stored =
     (let tasksWithTimestamp = map (\<lambda>task. task\<lparr>updatedAt := now\<rparr>) updatedTasks
      in (tasksWithTimestamp, tasksWithTimestamp))"

subsection \<open>IndexedDBStorageAdapter\<close>

text \<open>
  The object store \<^verbatim>\<open>tasks\<close> has key path \<^verbatim>\<open>id\<close>: it is a map from keys to objects,
  and \<^verbatim>\<open>put\<close> files an object under its own \<^verbatim>\<open>id\<close>.
\<close>

type_synonym 'obj object_store = "string \<rightharpoonup> 'obj"

definition IndexedDB_update ::
  "timestamp \<Rightarrow> string \<Rightarrow> UpdateTaskInput \<Rightarrow> Task object_store
     \<Rightarrow> js_error + (Task \<times> Task object_store)" where
  "IndexedDB_update now ident updates db =
     (case db ident of
        None \<Rightarrow> Inl (notFound ident)
      | Some existingTask \<Rightarrow>
          (let t = updatedTask existingTask updates now
           in Inr (t, db(task_id t \<mapsto> t))))"

text \<open>
  \<^verbatim>\<open>bulkUpdate\<close> issues every \<^verbatim>\<open>put\<close> inside one \<^verbatim>\<open>readwrite\<close> transaction and
  awaits \<^verbatim>\<open>tx.done\<close>. The transaction either commits all its writes or aborts and
  leaves the store as it was; \<open>txError\<close> is the outcome the environment decides:
  \<open>None\<close> for a commit, the message of the rejection for an abort.
\<close>

definition IndexedDB_bulkUpdate ::
  "string option \<Rightarrow> timestamp \<Rightarrow> Task list \<Rightarrow> Task object_store
     \<Rightarrow> (js_error + Task list) \<times> Task object_store" where
  "IndexedDB_bulkUpdate txError now updatedTasks db =
     (let tasksWithTimestamp = map (\<lambda>task. task\<lparr>updatedAt := now\<rparr>) updatedTasks
      in case txError of
           Some msg \<Rightarrow> (Inl (Error msg), db)
         | None \<Rightarrow> (Inr tasksWithTimestamp,
                     foldl (\<lambda>store task. store(task_id task \<mapsto> task)) db tasksWithTimestamp))"

text \<open>\<^verbatim>\<open>getAll\<close> as a lookup: what a later read finds under a key.\<close>

definition IndexedDB_getById :: "string \<Rightarrow> 'obj object_store \<Rightarrow> 'obj option" where
  "IndexedDB_getById ident db = db ident"

definition LocalStorage_getById :: "string \<Rightarrow> Task list \<Rightarrow> Task option" where
  "LocalStorage_getById ident tasks = find (\<lambda>t. task_id t = ident) tasks"

subsection \<open>NoOpStorageAdapter\<close>

definition NoOp_getAll :: "js_error + Task list" where
  "NoOp_getAll = Inr []"

definition NoOp_getById :: "string \<Rightarrow> js_error + Task option" where
  "NoOp_getById ident = Inr None"

definition NoOp_create :: "CreateTaskInput \<Rightarrow> js_error + Task" where
  "NoOp_create task = Inl (Error ''Cannot create task during SSR'')"

definition NoOp_update :: "string \<Rightarrow> UpdateTaskInput \<Rightarrow> js_error + Task" where
  "NoOp_update ident updates = Inl (Error ''Cannot update task during SSR'')"

definition NoOp_delete :: "string \<Rightarrow> js_error + unit" where
  "NoOp_delete ident = Inl (Error ''Cannot delete task during SSR'')"

definition NoOp_bulkUpdate :: "Task list \<Rightarrow> js_error + Task list" where
  "NoOp_bulkUpdate tasks = Inl (Error ''Cannot bulk update during SSR'')"

definition NoOp_getByStatus :: "TaskStatus \<Rightarrow> js_error + Task list" where
  "NoOp_getByStatus st = Inr []"

definition NoOp_getByDateRange :: "timestamp \<Rightarrow> timestamp \<Rightarrow> js_error + Task list" where
  "NoOp_getByDateRange start end = Inr []"

definition NoOp_clear :: "js_error + unit" where
  "NoOp_clear = Inr ()"

section \<open>Migration coordinator (services/storage/migration.ts)\<close>

text \<open>
  The legacy key holds a string. It is represented by what the code makes of it: the empty
  string (falsy, like an absent key), a text \<^verbatim>\<open>JSON.parse\<close> rejects (with the message of
  the \<^verbatim>\<open>SyntaxError\<close>), a JSON value that is not an array, or an array of records. An
  element of the array is a JSON object, or \<^verbatim>\<open>null\<close> (\<open>None\<close>), on which reading a
  property throws a \<^verbatim>\<open>TypeError\<close>. Of an object the model keeps the three properties the
  validation reads, each \<open>None\<close> when it is missing or \<^verbatim>\<open>null\<close>, its \<^verbatim>\<open>updatedAt\<close>, and
  the rest of its properties as an opaque text.
\<close>

record LegacyRecord =
  rec_id :: "string option"
  rec_content :: "string option"
  rec_status :: "string option"
  rec_updatedAt :: "timestamp option"
  rec_rest :: string

datatype LegacyData =
    EmptyText
  | Malformed string
  | NotAnArray
  | TaskArray "LegacyRecord option list"

text \<open>
  The part of the browser the migration touches: the two \<^verbatim>\<open>localStorage\<close> keys
  \<^verbatim>\<open>weekly-todo-tasks\<close> and \<^verbatim>\<open>weekly-todo-migration-completed\<close> (\<open>None\<close> for an absent
  key) and the \<^verbatim>\<open>tasks\<close> object store of the database.
\<close>

record Browser =
  legacyTasks :: "LegacyData option"
  migrationFlag :: "string option"
  indexedDB :: "LegacyRecord object_store"

text \<open>
  What the environment may refuse: \<^verbatim>\<open>localStorage.setItem\<close>, \<^verbatim>\<open>localStorage.removeItem\<close>
  and the transaction of \<^verbatim>\<open>bulkUpdate\<close>, each \<open>None\<close> when it succeeds and the message of
  the thrown error otherwise.
\<close>

record Faults =
  setItemError :: "string option"
  removeItemError :: "string option"
  bulkUpdateError :: "string option"

record MigrationResult =
  success :: bool
  tasksCount :: nat
  error :: "string option"

definition truthy :: "string option \<Rightarrow> bool" where
  "truthy v = (case v of None \<Rightarrow> False | Some s \<Rightarrow> s \<noteq> [])"

definition validRecord :: "LegacyRecord \<Rightarrow> bool" where
  "validRecord task = (truthy (rec_id task) \<and> truthy (rec_content task) \<and> truthy (rec_status task))"

text \<open>
  \<^verbatim>\<open>IndexedDBStorageAdapter.bulkUpdate\<close> on the records of the migration. A valid
  record has a string \<^verbatim>\<open>id\<close>, which is its key.
\<close>

definition recordKey :: "LegacyRecord \<Rightarrow> string" where
  "recordKey task = (case rec_id task of Some k \<Rightarrow> k | None \<Rightarrow> [])"

definition IndexedDB_bulkUpdate_records ::
  "string option \<Rightarrow> timestamp \<Rightarrow> LegacyRecord list \<Rightarrow> LegacyRecord object_store
     \<Rightarrow> (js_error + LegacyRecord list) \<times> LegacyRecord object_store" where
  "IndexedDB_bulkUpdate_records txError now updatedTasks db =
     (let tasksWithTimestamp = map (\<lambda>task. task\<lparr>rec_updatedAt := Some now\<rparr>) updatedTasks
      in case txError of
           Some msg \<Rightarrow> (Inl (Error msg), db)
         | None \<Rightarrow> (Inr tasksWithTimestamp,
                     foldl (\<lambda>store task. store(recordKey task \<mapsto> task)) db tasksWithTimestamp))"

definition failed :: "string \<Rightarrow> MigrationResult" where
  "failed msg = \<lparr> success = False, tasksCount = 0, error = Some msg \<rparr>"

definition succeeded :: "nat \<Rightarrow> MigrationResult" where
  "succeeded n = \<lparr> success = True, tasksCount = n, error = None \<rparr>"

text \<open>\<^verbatim>\<open>localStorage.setItem(MIGRATION_FLAG_KEY, 'true'); return { success: true, tasksCount: 0 }\<close>
  inside the \<^verbatim>\<open>try\<close>: a refused write lands in the \<^verbatim>\<open>catch\<close>.\<close>

definition markDoneNothingToMigrate :: "Faults \<Rightarrow> Browser \<Rightarrow> MigrationResult \<times> Browser" where
  "markDoneNothingToMigrate faults b =
     (case setItemError faults of
        Some msg \<Rightarrow> (failed msg, b)
      | None \<Rightarrow> (succeeded 0, b\<lparr>migrationFlag := Some ''true''\<rparr>))"

definition nullPropertyMessage :: string where
  "nullPropertyMessage = ''Cannot read properties of null''"

text \<open>
  \<^verbatim>\<open>tasks.filter(task => task.id && task.content && task.status)\<close>: the callback
  throws at the first \<^verbatim>\<open>null\<close> element, which ends the \<^verbatim>\<open>filter\<close>.
\<close>

fun filterValid :: "LegacyRecord option list \<Rightarrow> js_error + LegacyRecord list" where
  "filterValid [] = Inr []"
| "filterValid (None # rest) = Inl (Error nullPropertyMessage)"
| "filterValid (Some task # rest) =
     (case filterValid rest of
        Inl e \<Rightarrow> Inl e
      | Inr valid \<Rightarrow> Inr (if validRecord task then task # valid else valid))"

definition migrateFromLocalStorage :: "Faults \<Rightarrow> timestamp \<Rightarrow> Browser \<Rightarrow> MigrationResult \<times> Browser" where
  "migrateFromLocalStorage faults now b =
     (if migrationFlag b = Some ''true'' then (succeeded 0, b)
      else case legacyTasks b of
          None \<Rightarrow> markDoneNothingToMigrate faults b
        | Some EmptyText \<Rightarrow> markDoneNothingToMigrate faults b
        | Some (Malformed msg) \<Rightarrow> (failed msg, b)
        | Some NotAnArray \<Rightarrow> markDoneNothingToMigrate faults b
        | Some (TaskArray tasks) \<Rightarrow>
            if tasks = [] then markDoneNothingToMigrate faults b
            else
              (case filterValid tasks of
                 Inl (Error msg) \<Rightarrow> (failed msg, b)
               | Inr validTasks \<Rightarrow>
                   if validTasks = [] then markDoneNothingToMigrate faults b
                   else
                     (case IndexedDB_bulkUpdate_records (bulkUpdateError faults) now validTasks (indexedDB b) of
                        (Inl (Error msg), db) \<Rightarrow> (failed msg, b\<lparr>indexedDB := db\<rparr>)
                      | (Inr stored, db) \<Rightarrow>
                          (let b1 = b\<lparr>indexedDB := db\<rparr>
                           in case setItemError faults of
                                Some msg \<Rightarrow> (failed msg, b1)
                              | None \<Rightarrow>
                                  (let b2 = b1\<lparr>migrationFlag := Some ''true''\<rparr>
                                   in case removeItemError faults of
                                        Some msg \<Rightarrow> (failed msg, b2)
                                      | None \<Rightarrow>
                                          (succeeded (length validTasks),
                                           b2\<lparr>legacyTasks := None\<rparr>))))))"

definition isMigrationNeeded :: "Browser \<Rightarrow> bool" where
  "isMigrationNeeded b =
     (let migrationCompleted = (migrationFlag b = Some ''true'');
          hasLocalStorageData = (legacyTasks b \<noteq> None)
      in \<not> migrationCompleted \<and> hasLocalStorageData)"


section \<open>Calendar engine (lib/date-utils.ts)\<close>

subsection \<open>The \<^verbatim>\<open>Date\<close> operations the engine calls\<close>

text \<open>
  ECMA-262 defines the calendar of \<^verbatim>\<open>Date\<close> by \<^verbatim>\<open>DayFromYear\<close>, the number of the
  first day of a year counted from 1970-01-01, in the proleptic Gregorian calendar, and
  \<^verbatim>\<open>YearFromTime\<close>, the largest year that starts no later than the given time.
  \<open>YearFromDay\<close> computes that year: an estimate from the mean length of a year, which is
  off by at most one, then corrected.
\<close>

definition DayFromYear :: "int \<Rightarrow> int" where
  "DayFromYear y = 365 * (y - 1970) + (y - 1969) div 4 - (y - 1901) div 100 + (y - 1601) div 400"

definition YearFromDay :: "int \<Rightarrow> int" where
  "YearFromDay n =
     (let y = 1970 + (400 * n) div 146097
      in if n < DayFromYear y then y - 1
         else if DayFromYear (y + 1) \<le> n then y + 1
         else y)"

definition dayOf :: "timestamp \<Rightarrow> int" where
  "dayOf t = t div msPerDay"

definition getFullYear :: "timestamp \<Rightarrow> int" where
  "getFullYear t = YearFromDay (dayOf t)"

text \<open>\<^verbatim>\<open>getDay()\<close>: 0 for Sunday to 6 for Saturday; 1970-01-01 was a Thursday.\<close>

definition getDay :: "timestamp \<Rightarrow> int" where
  "getDay t = (dayOf t + 4) mod 7"

text \<open>
  \<^verbatim>\<open>d.setDate(d.getDate() + k)\<close>: the day of the month may leave the month, and the date
  moves by \<open>k\<close> days with its time of day kept.
\<close>

definition addDays :: "timestamp \<Rightarrow> int \<Rightarrow> timestamp" where
  "addDays t k = t + k * msPerDay"

text \<open>
  \<^verbatim>\<open>new Date(year, 0, day)\<close>, local midnight of a day of January. The constructor reads
  a year from 0 to 99 as 1900 plus that year (ECMA-262, the Date constructor: "If y is not
  NaN and 0 \<le> ToIntegerOrInfinity(y) \<le> 99, let yr be 1900 + ToIntegerOrInfinity(y)").
\<close>

definition newDateJanuary :: "int \<Rightarrow> int \<Rightarrow> timestamp" where
  "newDateJanuary y day =
     (let yr = (if 0 \<le> y \<and> y \<le> 99 then 1900 + y else y)
      in (DayFromYear yr + (day - 1)) * msPerDay)"

text \<open>
  A time zone, as far as the engine meets it: the offset of local time from UTC, in
  milliseconds, at a local wall-clock time (the \<^verbatim>\<open>LocalTZA(t, false)\<close> of ECMA-262, by
  which a \<^verbatim>\<open>Date\<close> set from local fields finds its instant). \<^verbatim>\<open>d.getTime()\<close> is the
  wall-clock time less that offset. A zone with summer time has two offsets in a year.
\<close>

type_synonym zone = "timestamp \<Rightarrow> int"

definition getTime :: "zone \<Rightarrow> timestamp \<Rightarrow> int" where
  "getTime z d = d - z d"

subsection \<open>ISO weeks\<close>

text \<open>
  \<^verbatim>\<open>Math.ceil((((d.getTime() - yearStart.getTime()) / 86400000) + 1) / 7)\<close>: the
  difference of two instants, divided as real numbers, and the ceiling of the result. The
  two dates are local midnights; their instants are a whole number of days apart only
  where the zone has the same offset at both.
\<close>

definition getISOWeek :: "zone \<Rightarrow> timestamp \<Rightarrow> int \<times> int" where
  "getISOWeek z date =
     (let d0 = startOfDay date;
          dayNum = (if getDay d0 = 0 then 7 else getDay d0);
          d = addDays d0 (4 - dayNum);
          yearStart = newDateJanuary (getFullYear d) 1;
          weekNum = \<lceil>((real_of_int (getTime z d - getTime z yearStart) / 86400000) + 1) / 7\<rceil>
      in (getFullYear d, weekNum))"

text \<open>
  \<^verbatim>\<open>getMonday\<close> computes the day of the month \<^verbatim>\<open>d.getDate() - day + (day === 0 ? -6 : 1)\<close>
  and hands it to \<^verbatim>\<open>setDate\<close>; \<open>diff\<close> below is that number less \<^verbatim>\<open>d.getDate()\<close>, the
  days the date moves by. \<^verbatim>\<open>getSunday\<close> moves the Monday on by 6 days in the same way.
\<close>

definition getMonday :: "timestamp \<Rightarrow> timestamp" where
  "getMonday date =
     (let day = getDay date;
          diff = - day + (if day = 0 then - 6 else 1)
      in startOfDay (addDays date diff))"

definition getSunday :: "timestamp \<Rightarrow> timestamp" where
  "getSunday date = endOfDay (addDays (getMonday date) 6)"

definition getWeekInfo :: "zone \<Rightarrow> timestamp \<Rightarrow> WeekInfo" where
  "getWeekInfo z date =
     (case getISOWeek z date of
        (y, w) \<Rightarrow> \<lparr> year = y, week = w, startDate = getMonday date, endDate = getSunday date \<rparr>)"

definition getNextWeek :: "zone \<Rightarrow> WeekInfo \<Rightarrow> WeekInfo" where
  "getNextWeek z current = getWeekInfo z (addDays (startDate current) 7)"

definition getPreviousWeek :: "zone \<Rightarrow> WeekInfo \<Rightarrow> WeekInfo" where
  "getPreviousWeek z current = getWeekInfo z (addDays (startDate current) (- 7))"

subsection \<open>Week strings\<close>

text \<open>\<^verbatim>\<open>Number.prototype.toString\<close> of an integer, in decimal.\<close>

definition digitChar :: "nat \<Rightarrow> char" where
  "digitChar k = char_of (48 + k)"





text \<open>The class \<^verbatim>\<open>\d\<close> of a regular expression without the \<^verbatim>\<open>u\<close> flag: 0 to 9.\<close>

definition isDigit :: "char \<Rightarrow> bool" where
  "isDigit c = (48 \<le> (of_char c :: nat) \<and> (of_char c :: nat) \<le> 57)"

text \<open>
  \<^verbatim>\<open>isoWeek.match(/^(\d{4})-W(\d{2})$/)\<close>: the two groups of a match, \<open>None\<close> for
  \<^verbatim>\<open>null\<close>.
\<close>

fun matchISOWeek :: "string \<Rightarrow> (string \<times> string) option" where
  "matchISOWeek [y1, y2, y3, y4, dash, dubya, w1, w2] =
     (if isDigit y1 \<and> isDigit y2 \<and> isDigit y3 \<and> isDigit y4 \<and> dash = CHR ''-'' \<and> dubya = CHR ''W''
         \<and> isDigit w1 \<and> isDigit w2
      then Some ([y1, y2, y3, y4], [w1, w2]) else None)"
| "matchISOWeek s = None"

text \<open>\<^verbatim>\<open>parseInt(s, 10)\<close> on a string of digits.\<close>

definition parseInt :: "string \<Rightarrow> int" where
  "parseInt s = foldl (\<lambda>acc c. 10 * acc + (int (of_char c) - 48)) 0 s"

definition parseISOWeek :: "zone \<Rightarrow> string \<Rightarrow> js_error + WeekInfo" where
  "parseISOWeek z isoWeek =
     (case matchISOWeek isoWeek of
        None \<Rightarrow> Inl (Error (''Invalid ISO week format: '' @ isoWeek))
      | Some (ys, ws) \<Rightarrow>
          (let y = parseInt ys;
               w = parseInt ws;
               jan4 = newDateJanuary y 4;
               jan4WeekInfo = getWeekInfo z jan4;
               weekOffset = w - week jan4WeekInfo;
               targetMonday = addDays (startDate jan4WeekInfo) (weekOffset * 7)
           in Inr (getWeekInfo z targetMonday)))"

section \<open>Week filter by name (lib/filter-utils.ts)\<close>

text \<open>
  \<^verbatim>\<open>type WeekFilter = 'this-week' | 'last-week' | 'next-week' | 'all'\<close>.
  \<^verbatim>\<open>getCurrentWeekInfo()\<close> reads the clock; the time it reads is the parameter \<open>now\<close>.
\<close>

datatype WeekFilter = ThisWeek | LastWeek | NextWeek | AllWeeks

definition getCurrentWeekInfo :: "zone \<Rightarrow> timestamp \<Rightarrow> WeekInfo" where
  "getCurrentWeekInfo z now = getWeekInfo z now"

definition getWeekInfoForFilter :: "zone \<Rightarrow> timestamp \<Rightarrow> WeekFilter \<Rightarrow> WeekInfo" where
  "getWeekInfoForFilter z now flt =
     (let currentWeek = getCurrentWeekInfo z now
      in case flt of
           ThisWeek \<Rightarrow> currentWeek
         | NextWeek \<Rightarrow> getNextWeek z currentWeek
         | LastWeek \<Rightarrow> getPreviousWeek z currentWeek
         | AllWeeks \<Rightarrow> currentWeek)"

definition filterTasksByWeek :: "zone \<Rightarrow> timestamp \<Rightarrow> Task list \<Rightarrow> WeekFilter \<Rightarrow> Task list" where
  "filterTasksByWeek z now tasks flt =
     (if flt = AllWeeks then tasks
      else
        (let weekInfo = getWeekInfoForFilter z now flt
         in filter (\<lambda>task.
              if status task \<noteq> Completed then True
              else (case completedAt task of
                      Some c \<Rightarrow> isDateInWeek c weekInfo
                    | None \<Rightarrow> False)) tasks))"

section \<open>Predicates of the statements\<close>

text \<open>
  A week window whose bounds are what the data model says they are: the first
  millisecond of a day and the last millisecond of a day.
\<close>

definition dayAligned :: "WeekInfo \<Rightarrow> bool" where
  "dayAligned w = (startDate w mod msPerDay = 0 \<and> endDate w mod msPerDay = msPerDay - 1)"

text \<open>
  The local midnight of the Thursday of the week of a date, and a condition on the zone
  at a date: at the Thursday of its week the offset from UTC is the one the zone has at
  the start of that Thursday's year, as the constructor builds it, or larger by less than
  a day. A zone of one offset meets it at every date. So does a zone that puts its
  clocks forward for the summer and has winter time on 1 January. A zone that has summer
  time on 1 January meets it at the dates whose Thursday is in summer time, and not at
  those whose Thursday is in winter time.
\<close>

definition thursdayOf :: "timestamp \<Rightarrow> timestamp" where
  "thursdayOf date = addDays (getMonday date) 3"

definition offsetNotBelowNewYear :: "zone \<Rightarrow> timestamp \<Rightarrow> bool" where
  "offsetNotBelowNewYear z date =
     (let d = thursdayOf date;
          yearStart = newDateJanuary (getFullYear d) 1
      in z yearStart \<le> z d \<and> z d < z yearStart + msPerDay)"

text \<open>
  The strings the pattern \<^verbatim>\<open>^\d{4}-W\d{2}$\<close> accepts, written out: eight characters,
  of which the first four are decimal digits, the next two are \<^verbatim>\<open>-W\<close> and the last two
  are decimal digits.
\<close>

definition matchesISOWeekPattern :: "string \<Rightarrow> bool" where
  "matchesISOWeekPattern s =
     (length s = 8 \<and> set (take 4 s) \<subseteq> set ''0123456789'' \<and> take 2 (drop 4 s) = ''-W''
        \<and> set (drop 6 s) \<subseteq> set ''0123456789'')"

text \<open>
  The number of ISO weeks of a year. By ISO 8601 a week belongs to the year of its
  Thursday, so it is the number of Thursdays of the year: of the days that are multiples
  of 7, from the first day of the year to the day before the next year.
\<close>

definition isoWeeksInYear :: "int \<Rightarrow> int" where
  "isoWeeksInYear y =
     (DayFromYear (y + 1) - 1 - 7 * ((DayFromYear y + 6) div 7)) div 7 + 1"

text \<open>
  The rule for \<^verbatim>\<open>completedAt\<close> read as a chain of alternatives, the first that applies
  deciding: a transition into \<^verbatim>\<open>completed\<close>, else a transition out of it, else
  a supplied value, else the value the task had.
\<close>

definition completedAtByFirstMatch :: "Task \<Rightarrow> UpdateTaskInput \<Rightarrow> timestamp \<Rightarrow> timestamp option" where
  "completedAtByFirstMatch existingTask updates now =
     (if u_status updates = Some Completed \<and> status existingTask \<noteq> Completed then Some now
      else if u_status updates \<noteq> None \<and> u_status updates \<noteq> Some Completed
                \<and> status existingTask = Completed then None
      else (case u_completedAt updates of Some v \<Rightarrow> v | None \<Rightarrow> completedAt existingTask))"

text \<open>
  The rule with the supplied value deciding first: a supplied \<^verbatim>\<open>completedAt\<close>, else a
  transition into \<^verbatim>\<open>completed\<close>, else a transition out of it, else the value the task
  had.
\<close>

definition completedAtSuppliedFirst :: "Task \<Rightarrow> UpdateTaskInput \<Rightarrow> timestamp \<Rightarrow> timestamp option" where
  "completedAtSuppliedFirst existingTask updates now =
     (case u_completedAt updates of
        Some v \<Rightarrow> v
      | None \<Rightarrow>
          if u_status updates = Some Completed \<and> status existingTask \<noteq> Completed then Some now
          else if u_status updates \<noteq> None \<and> u_status updates \<noteq> Some Completed
                    \<and> status existingTask = Completed then None
          else completedAt existingTask)"

text \<open>
  The steps of the migration at which an exception can be raised, as the specification
  lists them, and the exception a run meets first. They are read off the environment and
  the stored data, not off the result of the call: reading the legacy data throws on a text
  that is not JSON; validating, which a nonempty array gets, throws on a \<^verbatim>\<open>null\<close>
  element; the bulk insert and the erasing of the legacy data, which a run with records
  to migrate gets, and the write of the flag throw when the environment refuses them.
\<close>

datatype MigrationStep = ReadLegacy | Validate | BulkInsert | SetFlag | EraseLegacy

definition legacyRecords :: "Browser \<Rightarrow> LegacyRecord option list" where
  "legacyRecords b = (case legacyTasks b of Some (TaskArray tasks) \<Rightarrow> tasks | _ \<Rightarrow> [])"

definition recordsToMigrate :: "Browser \<Rightarrow> LegacyRecord list" where
  "recordsToMigrate b = filter validRecord (List.map_filter (\<lambda>t. t) (legacyRecords b))"

definition stepsOfRun :: "Browser \<Rightarrow> MigrationStep list" where
  "stepsOfRun b =
     [ReadLegacy]
     @ (if legacyRecords b \<noteq> [] then [Validate] else [])
     @ (if recordsToMigrate b \<noteq> [] then [BulkInsert] else [])
     @ [SetFlag]
     @ (if recordsToMigrate b \<noteq> [] then [EraseLegacy] else [])"

definition thrownAt :: "Faults \<Rightarrow> Browser \<Rightarrow> MigrationStep \<Rightarrow> string option" where
  "thrownAt faults b step =
     (case step of
        ReadLegacy \<Rightarrow> (case legacyTasks b of Some (Malformed msg) \<Rightarrow> Some msg | _ \<Rightarrow> None)
      | Validate \<Rightarrow> (if None \<in> set (legacyRecords b) then Some nullPropertyMessage else None)
      | BulkInsert \<Rightarrow> bulkUpdateError faults
      | SetFlag \<Rightarrow> setItemError faults
      | EraseLegacy \<Rightarrow> removeItemError faults)"

definition firstException :: "Faults \<Rightarrow> Browser \<Rightarrow> (MigrationStep \<times> string) option" where
  "firstException faults b =
     (case find (\<lambda>step. thrownAt faults b step \<noteq> None) (stepsOfRun b) of
        None \<Rightarrow> None
      | Some step \<Rightarrow> map_option (Pair step) (thrownAt faults b step))"

text \<open>Calls of \<^verbatim>\<open>migrateFromLocalStorage\<close> one after the other, each with its own
  environment and time, the result of each dropped.\<close>

definition migrateRepeatedly :: "(Faults \<times> timestamp) list \<Rightarrow> Browser \<Rightarrow> Browser" where
  "migrateRepeatedly calls b =
     foldl (\<lambda>state call. snd (migrateFromLocalStorage (fst call) (snd call) state)) b calls"

section \<open>Sample data\<close>

definition sampleTask :: "string \<Rightarrow> TaskStatus \<Rightarrow> timestamp option \<Rightarrow> Task" where
  "sampleTask ident st done =
     \<lparr> task_id = ident, content = ''Write the weekly report'', status = st, priority = Medium,
       deadline = None, tags = [''work''], createdAt = 1766000000000, completedAt = done,
       updatedAt = 1766000000000, userId = None, task_order = 0 \<rparr>"

text \<open>The week 2026-W03: Monday 2026-01-12 00:00:00.000 to Sunday 2026-01-18 23:59:59.999.\<close>

definition sampleWeek :: WeekInfo where
  "sampleWeek = \<lparr> year = 2026, week = 3, startDate = 1768176000000, endDate = 1768780799999 \<rparr>"

text \<open>
  Three open tasks, a task completed three weeks before the sample week, one completed
  on its Monday, and a completed task without a completion time.
\<close>

definition sampleTasks :: "Task list" where
  "sampleTasks =
     [sampleTask ''a'' Upcoming None, sampleTask ''b'' InProgress None, sampleTask ''c'' OnHold None,
      sampleTask ''d'' Completed (Some 1766361600000), sampleTask ''e'' Completed (Some 1768200000000),
      sampleTask ''f'' Completed None]"

definition noUpdates :: UpdateTaskInput where
  "noUpdates = \<lparr> u_content = None, u_status = None, u_priority = None, u_deadline = None,
       u_tags = None, u_completedAt = None, u_updatedAt = None, u_order = None \<rparr>"

definition noFaults :: Faults where
  "noFaults = \<lparr> setItemError = None, removeItemError = None, bulkUpdateError = None \<rparr>"

definition sampleRecord :: "string option \<Rightarrow> string option \<Rightarrow> LegacyRecord" where
  "sampleRecord ident text =
     \<lparr> rec_id = ident, rec_content = text, rec_status = Some ''upcoming'',
       rec_updatedAt = Some 1766000000000, rec_rest = ''priority: medium'' \<rparr>"

text \<open>A browser before the migration: two legacy records, the second without content.\<close>

definition sampleBrowser :: Browser where
  "sampleBrowser =
     \<lparr> legacyTasks = Some (TaskArray [Some (sampleRecord (Some ''a'') (Some ''Write the weekly report'')),
                                      Some (sampleRecord (Some ''b'') None)]),
       migrationFlag = None,
       indexedDB = Map.empty \<rparr>"

text \<open>A browser whose legacy records all fail the validation.\<close>

definition invalidOnlyBrowser :: Browser where
  "invalidOnlyBrowser =
     \<lparr> legacyTasks = Some (TaskArray [Some (sampleRecord (Some ''b'') None),
                                      Some (sampleRecord (Some []) (Some ''No identifier''))]),
       migrationFlag = None,
       indexedDB = Map.empty \<rparr>"

text \<open>The sample browser after its migration.\<close>

definition migratedBrowser :: Browser where
  "migratedBrowser =
     \<lparr> legacyTasks = None,
       migrationFlag = Some ''true'',
       indexedDB = [''a'' \<mapsto> (sampleRecord (Some ''a'') (Some ''Write the weekly report''))
                                 \<lparr>rec_updatedAt := Some 1768300000000\<rparr>] \<rparr>"

text \<open>A zone of one offset from UTC.\<close>

definition fixedZone :: "int \<Rightarrow> zone" where
  "fixedZone offset t = offset"

text \<open>
  A zone with the offsets Australia/Sydney has in 2021: eleven hours ahead of UTC in
  summer, ten hours ahead from 4 April, 03:00, to 3 October, 02:00, of the local clock.
\<close>

definition southernZone :: zone where
  "southernZone t = (if 1617505200000 \<le> t \<and> t < 1633226400000 then 36000000 else 39600000)"

section \<open>Whole days\<close>

lemma msPerDay_pos: "0 < msPerDay"
  by (simp add: msPerDay_def)

lemma startOfDay_le: "startOfDay t \<le> t"
proof -
  have "t = (t div msPerDay) * msPerDay + t mod msPerDay" by simp
  moreover have "0 \<le> t mod msPerDay" using msPerDay_pos by simp
  ultimately show ?thesis unfolding startOfDay_def by linarith
qed

lemma startOfDay_mono: "s \<le> t \<Longrightarrow> startOfDay s \<le> startOfDay t"
  unfolding startOfDay_def using msPerDay_pos
  by (simp add: zdiv_mono1 mult_right_mono)

lemma startOfDay_aligned: "a mod msPerDay = 0 \<Longrightarrow> startOfDay a = a"
  unfolding startOfDay_def by (metis mod_0_imp_dvd dvd_div_mult_self)

lemma endOfDay_aligned: "a mod msPerDay = msPerDay - 1 \<Longrightarrow> endOfDay a = a"
  unfolding endOfDay_def by (metis div_mult_mod_eq)

lemma startOfDay_le_iff: "a mod msPerDay = 0 \<Longrightarrow> a \<le> startOfDay t \<longleftrightarrow> a \<le> t"
  using startOfDay_le [of t] startOfDay_mono [of a t] startOfDay_aligned [of a] by auto

lemma lt_next_day: "t < startOfDay t + msPerDay"
proof -
  have "t = (t div msPerDay) * msPerDay + t mod msPerDay" by simp
  moreover have "t mod msPerDay < msPerDay" using msPerDay_pos by simp
  ultimately show ?thesis unfolding startOfDay_def by linarith
qed

lemma endOfDay_eq: "endOfDay t = startOfDay t + (msPerDay - 1)"
  by (simp add: endOfDay_def startOfDay_def)

lemma startOfDay_idem: "startOfDay (startOfDay t) = startOfDay t"
  by (rule startOfDay_aligned) (simp add: startOfDay_def)

lemma startOfDay_ge_iff:
  assumes "a mod msPerDay = msPerDay - 1"
  shows "startOfDay t \<le> a \<longleftrightarrow> t \<le> a"
proof
  assume "t \<le> a"
  then show "startOfDay t \<le> a" using startOfDay_le [of t] by linarith
next
  assume h: "startOfDay t \<le> a"
  have a: "a = startOfDay a + (msPerDay - 1)"
    using endOfDay_aligned [OF assms] endOfDay_eq [of a] by simp
  have "startOfDay t \<le> startOfDay a"
    using startOfDay_mono [OF h] by (simp add: startOfDay_idem)
  then show "t \<le> a" using a lt_next_day [of t] by linarith
qed

section \<open>The week filter\<close>

text \<open>
  \<^verbatim>\<open>isDateInWeek\<close> compares whole days: it moves the date and the start of the week to
  their midnights and the end of the week to the last millisecond of its day. On a week
  whose bounds already are such instants this is the inclusive test against the bounds.
\<close>

lemma isDateInWeek_whole_days:
  "isDateInWeek c w \<longleftrightarrow> startOfDay (startDate w) \<le> c \<and> c \<le> endOfDay (endDate w)"
proof -
  have s: "startOfDay (startDate w) mod msPerDay = 0"
    by (simp add: startOfDay_def)
  have "endOfDay (endDate w) mod msPerDay = (msPerDay - 1) mod msPerDay"
    unfolding endOfDay_def by (metis mod_mult_self3)
  then have e: "endOfDay (endDate w) mod msPerDay = msPerDay - 1"
    using msPerDay_pos by (simp add: msPerDay_def)
  show ?thesis
    unfolding isDateInWeek_def Let_def startOfDay_le_iff [OF s] startOfDay_ge_iff [OF e] ..
qed

lemma isDateInWeek_aligned:
  "dayAligned w \<Longrightarrow> isDateInWeek c w \<longleftrightarrow> startDate w \<le> c \<and> c \<le> endDate w"
  by (simp add: isDateInWeek_def dayAligned_def Let_def startOfDay_aligned endOfDay_aligned
      startOfDay_le_iff startOfDay_ge_iff)

text \<open>
  C1. With \<^verbatim>\<open>showAll\<close> the filter returns the tasks as they are. Without it, it keeps
  the tasks in their order and keeps a task exactly when its status is not
  \<^verbatim>\<open>completed\<close>, whatever the week, or it is \<^verbatim>\<open>completed\<close> with a completion time that
  is not null and lies in the week; a completed task without completion time is dropped.
  The week runs from the first millisecond of the day of \<^verbatim>\<open>startDate\<close> to the last
  millisecond of the day of \<^verbatim>\<open>endDate\<close>; for a week window of the data model, whose
  start is the first millisecond of a day and whose end is the last one of a day, as in
  every week \<^verbatim>\<open>getWeekInfo\<close> builds, that is from \<^verbatim>\<open>startDate\<close> to \<^verbatim>\<open>endDate\<close>, both
  included.
\<close>

theorem filterTasksByWeekInfo_rule:
  "filterTasksByWeekInfo tasks weekInfo True = tasks \<and>
   filterTasksByWeekInfo tasks weekInfo False =
     filter (\<lambda>t. status t \<noteq> Completed \<or>
                  (\<exists>c. completedAt t = Some c \<and>
                       startOfDay (startDate weekInfo) \<le> c \<and> c \<le> endOfDay (endDate weekInfo)))
            tasks \<and>
   (dayAligned weekInfo \<longrightarrow>
      filterTasksByWeekInfo tasks weekInfo False =
        filter (\<lambda>t. status t \<noteq> Completed \<or>
                     (\<exists>c. completedAt t = Some c \<and> startDate weekInfo \<le> c \<and> c \<le> endDate weekInfo))
               tasks)"
proof -
  have days: "(\<lambda>t. if status t \<noteq> Completed then True
             else (case completedAt t of Some c \<Rightarrow> isDateInWeek c weekInfo | None \<Rightarrow> False))
          = (\<lambda>t. status t \<noteq> Completed \<or>
              (\<exists>c. completedAt t = Some c \<and>
                   startOfDay (startDate weekInfo) \<le> c \<and> c \<le> endOfDay (endDate weekInfo)))"
    by (auto simp: isDateInWeek_whole_days split: option.splits)
  have bounds: "(\<lambda>t. if status t \<noteq> Completed then True
             else (case completedAt t of Some c \<Rightarrow> isDateInWeek c weekInfo | None \<Rightarrow> False))
          = (\<lambda>t. status t \<noteq> Completed \<or>
              (\<exists>c. completedAt t = Some c \<and> startDate weekInfo \<le> c \<and> c \<le> endDate weekInfo))"
    if "dayAligned weekInfo"
    using that by (auto simp: isDateInWeek_aligned split: option.splits)
  have all: "filterTasksByWeekInfo tasks weekInfo True = tasks"
    by (simp add: filterTasksByWeekInfo_def)
  have byDays: "filterTasksByWeekInfo tasks weekInfo False =
     filter (\<lambda>t. status t \<noteq> Completed \<or>
                  (\<exists>c. completedAt t = Some c \<and>
                       startOfDay (startDate weekInfo) \<le> c \<and> c \<le> endOfDay (endDate weekInfo)))
            tasks"
    unfolding filterTasksByWeekInfo_def days by simp
  have byBounds: "filterTasksByWeekInfo tasks weekInfo False =
        filter (\<lambda>t. status t \<noteq> Completed \<or>
                     (\<exists>c. completedAt t = Some c \<and> startDate weekInfo \<le> c \<and> c \<le> endDate weekInfo))
               tasks"
    if "dayAligned weekInfo"
    unfolding filterTasksByWeekInfo_def bounds [OF that] by simp
  show ?thesis
    using all byDays byBounds by blast
qed

theorem filterTasksByWeekInfo_rule_witness:
  "dayAligned sampleWeek \<and>
   filterTasksByWeekInfo sampleTasks sampleWeek True = sampleTasks \<and>
   filterTasksByWeekInfo sampleTasks sampleWeek False =
     [sampleTask ''a'' Upcoming None, sampleTask ''b'' InProgress None, sampleTask ''c'' OnHold None,
      sampleTask ''e'' Completed (Some 1768200000000)]"
proof -
  have h: "dayAligned sampleWeek"
    by (simp add: dayAligned_def sampleWeek_def msPerDay_def)
  have a: "filterTasksByWeekInfo sampleTasks sampleWeek True = sampleTasks"
    using filterTasksByWeekInfo_rule [of sampleTasks sampleWeek] by blast
  have b: "filterTasksByWeekInfo sampleTasks sampleWeek False =
        filter (\<lambda>t. status t \<noteq> Completed \<or>
                     (\<exists>c. completedAt t = Some c \<and> startDate sampleWeek \<le> c \<and> c \<le> endDate sampleWeek))
               sampleTasks"
    using filterTasksByWeekInfo_rule [of sampleTasks sampleWeek] h by blast
  have c: "filter (\<lambda>t. status t \<noteq> Completed \<or>
                     (\<exists>c. completedAt t = Some c \<and> startDate sampleWeek \<le> c \<and> c \<le> endDate sampleWeek))
               sampleTasks
           = [sampleTask ''a'' Upcoming None, sampleTask ''b'' InProgress None, sampleTask ''c'' OnHold None,
              sampleTask ''e'' Completed (Some 1768200000000)]"
    by (simp add: sampleTasks_def sampleTask_def sampleWeek_def)
  show ?thesis
    using h a b c by simp
qed

text \<open>The filter by name is the filter by week, on the week the name stands for.\<close>

lemma filterTasksByWeek_by_info:
  "filterTasksByWeek z now tasks flt
     = filterTasksByWeekInfo tasks (getWeekInfoForFilter z now flt) (flt = AllWeeks)"
  by (simp add: filterTasksByWeek_def filterTasksByWeekInfo_def Let_def)


section \<open>The repository's update\<close>

lemma findIndex_Some: "findIndex p xs = Some i \<Longrightarrow> i < length xs \<and> p (xs ! i)"
proof (induction xs arbitrary: i)
  case Nil
  then show ?case by simp
next
  case (Cons x xs)
  then show ?case by (cases "p x") auto
qed

text \<open>
  The three assignments of the source, run one after the other, give the rule in which a
  supplied value decides first.
\<close>

lemma newCompletedAt_suppliedFirst:
  "newCompletedAt existingTask updates now = completedAtSuppliedFirst existingTask updates now"
  by (auto simp: newCompletedAt_def completedAtSuppliedFirst_def Let_def split: option.splits)

text \<open>
  C2, as the code has it. An update of a stored task, in either backend, returns a task
  whose \<^verbatim>\<open>updatedAt\<close> is now and whose \<^verbatim>\<open>completedAt\<close> is: the value the caller supplied
  in the update (null included), if one was supplied; else now, if the status goes from a
  status other than \<^verbatim>\<open>completed\<close> to \<^verbatim>\<open>completed\<close>; else null, if it goes from
  \<^verbatim>\<open>completed\<close> to another status; else the value the task had.
\<close>

theorem update_completedAt_rule:
  "(findIndex (\<lambda>t. task_id t = ident) tasks = Some i \<longrightarrow>
      (\<exists>t tasks'. LocalStorage_update now ident updates tasks = Inr (t, tasks') \<and>
         updatedAt t = now \<and>
         completedAt t = completedAtSuppliedFirst (tasks ! i) updates now)) \<and>
   (db ident = Some existingTask \<longrightarrow>
      (\<exists>t db'. IndexedDB_update now ident updates db = Inr (t, db') \<and>
         updatedAt t = now \<and>
         completedAt t = completedAtSuppliedFirst existingTask updates now))"
  by (simp add: LocalStorage_update_def IndexedDB_update_def Let_def updatedTask_def
      newCompletedAt_suppliedFirst)

theorem update_completedAt_rule_witness:
  "findIndex (\<lambda>t. task_id t = ''e'') sampleTasks = Some 4 \<and>
   (\<exists>t tasks'. LocalStorage_update 1768300000000 ''e'' (noUpdates\<lparr>u_status := Some Upcoming\<rparr>) sampleTasks
        = Inr (t, tasks') \<and> updatedAt t = 1768300000000 \<and> completedAt t = None) \<and>
   [''a'' \<mapsto> sampleTask ''a'' Upcoming None] ''a'' = Some (sampleTask ''a'' Upcoming None) \<and>
   (\<exists>t db'. IndexedDB_update 1768300000000 ''a'' (noUpdates\<lparr>u_status := Some Completed\<rparr>)
          [''a'' \<mapsto> sampleTask ''a'' Upcoming None]
        = Inr (t, db') \<and> updatedAt t = 1768300000000 \<and> completedAt t = Some 1768300000000)"
proof -
  have i: "findIndex (\<lambda>t. task_id t = ''e'') sampleTasks = Some 4"
    by (simp add: sampleTasks_def sampleTask_def)
  have e: "sampleTasks ! 4 = sampleTask ''e'' Completed (Some 1768200000000)"
    by (simp add: sampleTasks_def)
  show ?thesis
    using i
      update_completedAt_rule [of "''e''" sampleTasks 4 1768300000000
        "noUpdates\<lparr>u_status := Some Upcoming\<rparr>"
        "[''a'' \<mapsto> sampleTask ''a'' Upcoming None]" "sampleTask ''a'' Upcoming None"]
      update_completedAt_rule [of "''a''" sampleTasks 4 1768300000000
        "noUpdates\<lparr>u_status := Some Completed\<rparr>"
        "[''a'' \<mapsto> sampleTask ''a'' Upcoming None]" "sampleTask ''a'' Upcoming None"]
    by (simp add: e completedAtSuppliedFirst_def noUpdates_def sampleTask_def)
qed

text \<open>
  The rule read as a chain of alternatives does not describe the code: for an open task,
  an update that sets the status to \<^verbatim>\<open>completed\<close> and supplies the completion time 5
  stores 5, where the chain would stop at its first alternative and store now.
\<close>

theorem update_completedAt_counterexample:
  "LocalStorage_update 200 ''a''
       (noUpdates\<lparr>u_status := Some Completed, u_completedAt := Some (Some 5)\<rparr>)
       [sampleTask ''a'' Upcoming None]
     = Inr ((sampleTask ''a'' Completed (Some 5))\<lparr>updatedAt := 200\<rparr>,
            [(sampleTask ''a'' Completed (Some 5))\<lparr>updatedAt := 200\<rparr>]) \<and>
   completedAtByFirstMatch (sampleTask ''a'' Upcoming None)
       (noUpdates\<lparr>u_status := Some Completed, u_completedAt := Some (Some 5)\<rparr>) 200
     = Some 200"
  by (simp add: LocalStorage_update_def updatedTask_def newCompletedAt_def Let_def
      completedAtByFirstMatch_def noUpdates_def sampleTask_def)


section \<open>The no-op backend\<close>

text \<open>
  C8, as the code has it. The no-op backend answers every query with an empty result
  (\<^verbatim>\<open>getAll\<close>, \<^verbatim>\<open>getByStatus\<close> and \<^verbatim>\<open>getByDateRange\<close> with the empty list, \<^verbatim>\<open>getById\<close>
  with null); \<^verbatim>\<open>create\<close>, \<^verbatim>\<open>update\<close>, \<^verbatim>\<open>delete\<close> and \<^verbatim>\<open>bulkUpdate\<close> throw an error;
  \<^verbatim>\<open>clear\<close> returns normally and does nothing.
\<close>

theorem NoOp_contract:
  "NoOp_getAll = Inr [] \<and>
   NoOp_getById ident = Inr None \<and>
   NoOp_getByStatus st = Inr [] \<and>
   NoOp_getByDateRange start end = Inr [] \<and>
   NoOp_create input = Inl (Error ''Cannot create task during SSR'') \<and>
   NoOp_update ident updates = Inl (Error ''Cannot update task during SSR'') \<and>
   NoOp_delete ident = Inl (Error ''Cannot delete task during SSR'') \<and>
   NoOp_bulkUpdate tasks = Inl (Error ''Cannot bulk update during SSR'') \<and>
   NoOp_clear = Inr ()"
  by (simp add: NoOp_getAll_def NoOp_getById_def NoOp_getByStatus_def NoOp_getByDateRange_def
      NoOp_create_def NoOp_update_def NoOp_delete_def NoOp_bulkUpdate_def NoOp_clear_def)

text \<open>\<^verbatim>\<open>clear\<close> on the no-op backend does not throw.\<close>

theorem NoOp_clear_counterexample: "\<not> isl NoOp_clear"
  by (simp add: NoOp_clear_def)


section \<open>Bulk update\<close>

lemma foldl_put_other:
  "k \<notin> key ` set ts \<Longrightarrow> foldl (\<lambda>store task. store(key task \<mapsto> task)) db ts k = db k"
  by (induction ts arbitrary: db) auto

lemma foldl_put_member:
  "k \<in> key ` set ts \<Longrightarrow>
     \<exists>t \<in> set ts. key t = k \<and> foldl (\<lambda>store task. store(key task \<mapsto> task)) db ts k = Some t"
proof (induction ts arbitrary: db)
  case Nil
  then show ?case by simp
next
  case (Cons a ts)
  show ?case
  proof (cases "k \<in> key ` set ts")
    case True
    from Cons.IH [OF True, of "db(key a \<mapsto> a)"] show ?thesis by auto
  next
    case False
    with Cons.prems have a: "key a = k" by auto
    have "foldl (\<lambda>store task. store(key task \<mapsto> task)) (db(key a \<mapsto> a)) ts k = (db(key a \<mapsto> a)) k"
      by (rule foldl_put_other [OF False])
    then have "foldl (\<lambda>store task. store(key task \<mapsto> task)) db (a # ts) k = Some a"
      unfolding foldl_Cons a by (simp only: fun_upd_same)
    with a show ?thesis
      by (intro bexI [of _ a] conjI) (simp_all only: list.set_intros)
  qed
qed

text \<open>
  The indexed backend: a committed bulk update leaves every object whose key is not in
  the batch as it was and stores, under every key of the batch, a task of the batch with
  \<^verbatim>\<open>updatedAt\<close> set to now; an aborted one leaves the store as it was.
\<close>

lemma IndexedDB_bulkUpdate_frame:
  "k \<notin> task_id ` set batch \<Longrightarrow>
     snd (IndexedDB_bulkUpdate None now batch db) k = db k"
proof -
  assume "k \<notin> task_id ` set batch"
  then have "k \<notin> task_id ` set (map (\<lambda>task. task\<lparr>updatedAt := now\<rparr>) batch)"
    by (auto simp: image_iff)
  then show ?thesis
    by (simp add: IndexedDB_bulkUpdate_def Let_def foldl_put_other)
qed

lemma IndexedDB_bulkUpdate_replaces:
  assumes "k \<in> task_id ` set batch"
  shows "\<exists>t \<in> set batch. task_id t = k \<and>
           snd (IndexedDB_bulkUpdate None now batch db) k = Some (t\<lparr>updatedAt := now\<rparr>)"
proof -
  let ?ts = "map (\<lambda>task. task\<lparr>updatedAt := now\<rparr>) batch"
  from assms have "k \<in> task_id ` set ?ts" by (force simp: image_iff)
  from foldl_put_member [OF this, of db]
  obtain u where u: "u \<in> set ?ts" "task_id u = k"
    "foldl (\<lambda>store task. store(task_id task \<mapsto> task)) db ?ts k = Some u" by blast
  then obtain t where "t \<in> set batch" "u = t\<lparr>updatedAt := now\<rparr>" by auto
  with u show ?thesis
    by (auto simp: IndexedDB_bulkUpdate_def Let_def)
qed

lemma IndexedDB_bulkUpdate_abort:
  "IndexedDB_bulkUpdate (Some msg) now batch db = (Inl (Error msg), db)"
  by (simp add: IndexedDB_bulkUpdate_def Let_def)

text \<open>
  The key-value backend writes the batch in place of the whole collection, whatever was
  stored.
\<close>

lemma LocalStorage_bulkUpdate_overwrites:
  "snd (LocalStorage_bulkUpdate now batch stored) = map (\<lambda>task. task\<lparr>updatedAt := now\<rparr>) batch"
  by (simp add: LocalStorage_bulkUpdate_def Let_def)

text \<open>
  C3 at a stored collection of two tasks and a batch holding the first of them. In the
  key-value backend the second task is gone after the bulk update; in the indexed
  backend it is still there, unchanged.
\<close>

theorem LocalStorage_bulkUpdate_loses_tasks:
  "LocalStorage_getById ''d''
       (snd (LocalStorage_bulkUpdate 1768300000000
               [(sampleTask ''a'' Upcoming None)\<lparr>task_order := 1\<rparr>]
               [sampleTask ''a'' Upcoming None, sampleTask ''d'' Completed (Some 1766361600000)]))
     = None \<and>
   IndexedDB_getById ''d''
       (snd (IndexedDB_bulkUpdate None 1768300000000
               [(sampleTask ''a'' Upcoming None)\<lparr>task_order := 1\<rparr>]
               [''a'' \<mapsto> sampleTask ''a'' Upcoming None,
                ''d'' \<mapsto> sampleTask ''d'' Completed (Some 1766361600000)]))
     = Some (sampleTask ''d'' Completed (Some 1766361600000))"
  by (simp add: LocalStorage_getById_def LocalStorage_bulkUpdate_def IndexedDB_getById_def
      IndexedDB_bulkUpdate_def Let_def sampleTask_def)


section \<open>The migration\<close>

lemma migrate_when_done:
  "migrationFlag b = Some ''true'' \<Longrightarrow> migrateFromLocalStorage faults now b = (succeeded 0, b)"
  by (simp add: migrateFromLocalStorage_def)

lemma markDone_success:
  "markDoneNothingToMigrate faults b = (r, b') \<Longrightarrow> success r \<Longrightarrow>
     r = succeeded 0 \<and> b' = b\<lparr>migrationFlag := Some ''true''\<rparr>"
  by (auto simp: markDoneNothingToMigrate_def failed_def succeeded_def split: option.splits)

lemma markDone_failure:
  "markDoneNothingToMigrate faults b = (r, b') \<Longrightarrow> \<not> success r \<Longrightarrow>
     b' = b \<and> (\<exists>msg. r = failed msg \<and> setItemError faults = Some msg)"
  by (auto simp: markDoneNothingToMigrate_def failed_def succeeded_def split: option.splits)

lemma bulkUpdate_records_result:
  "IndexedDB_bulkUpdate_records txError now ts db = (res, db') \<Longrightarrow>
     (case txError of
        Some msg \<Rightarrow> res = Inl (Error msg) \<and> db' = db
      | None \<Rightarrow> res = Inr (map (\<lambda>task. task\<lparr>rec_updatedAt := Some now\<rparr>) ts))"
  by (auto simp: IndexedDB_bulkUpdate_records_def Let_def split: option.splits)

text \<open>Every successful call leaves the flag set.\<close>

lemma migrate_success_flag:
  assumes "migrateFromLocalStorage faults now b = (r, b')" and "success r"
  shows "migrationFlag b' = Some ''true''"
proof (cases "migrationFlag b = Some ''true''")
  case True
  with assms show ?thesis by (simp add: migrateFromLocalStorage_def)
next
  case False
  with assms show ?thesis
    unfolding migrateFromLocalStorage_def
    by (auto simp: Let_def failed_def succeeded_def
        dest!: markDone_success
        split: option.splits LegacyData.splits sum.splits js_error.splits prod.splits if_splits)
qed

text \<open>
  Every failed call reports a message, leaves the legacy data as it was, and leaves the
  flag as it was unless the failure is that of erasing the legacy data.
\<close>

lemma migrate_failure_effect:
  assumes "migrateFromLocalStorage faults now b = (r, b')" and "\<not> success r"
  shows "error r \<noteq> None \<and> tasksCount r = 0 \<and> legacyTasks b' = legacyTasks b \<and>
         migrationFlag b \<noteq> Some ''true'' \<and>
         (migrationFlag b' = migrationFlag b \<or>
          (migrationFlag b' = Some ''true'' \<and> error r = removeItemError faults \<and>
           setItemError faults = None \<and> bulkUpdateError faults = None))"
proof (cases "migrationFlag b = Some ''true''")
  case True
  with assms show ?thesis by (auto simp: migrateFromLocalStorage_def succeeded_def)
next
  case False
  with assms show ?thesis
    unfolding migrateFromLocalStorage_def
    by (auto simp: Let_def failed_def succeeded_def
        dest!: markDone_failure bulkUpdate_records_result
        split: option.splits LegacyData.splits sum.splits js_error.splits prod.splits if_splits)
qed

lemma migrateRepeatedly_done:
  "migrationFlag b = Some ''true'' \<Longrightarrow> migrateRepeatedly calls b = b"
  unfolding migrateRepeatedly_def
  by (induction calls) (simp_all add: migrate_when_done)

text \<open>
  C6. With the flag set, a call of the migration returns success with count 0 and
  changes nothing: not the legacy data, not the flag, not the new store. After a call
  that reported success, whatever it migrated, the next call, in any environment,
  returns success with count 0 and changes nothing.
\<close>

theorem migrate_idempotent:
  "(migrationFlag b = Some ''true'' \<longrightarrow>
      migrateFromLocalStorage faults now b = (succeeded 0, b)) \<and>
   (migrateFromLocalStorage faults now b = (r, b') \<and> success r \<longrightarrow>
      migrateFromLocalStorage faults' now' b' = (succeeded 0, b'))"
  using migrate_when_done migrate_success_flag by blast

theorem migrate_idempotent_witness:
  "migrateFromLocalStorage noFaults 1768300000000 sampleBrowser = (succeeded 1, migratedBrowser) \<and>
   success (succeeded 1) \<and>
   legacyTasks migratedBrowser = None \<and>
   migrationFlag migratedBrowser = Some ''true'' \<and>
   migrateFromLocalStorage noFaults 1768300000001 migratedBrowser = (succeeded 0, migratedBrowser)"
proof -
  have first: "migrateFromLocalStorage noFaults 1768300000000 sampleBrowser = (succeeded 1, migratedBrowser)"
    by (simp add: migrateFromLocalStorage_def sampleBrowser_def migratedBrowser_def noFaults_def
        sampleRecord_def validRecord_def truthy_def IndexedDB_bulkUpdate_records_def recordKey_def
        Let_def)
  have ok: "success (succeeded 1)"
    by (simp add: succeeded_def)
  have flag: "migrationFlag migratedBrowser = Some ''true''"
    by (simp add: migratedBrowser_def)
  show ?thesis
    using first ok flag
      migrate_idempotent [of sampleBrowser noFaults 1768300000000 "succeeded 1" migratedBrowser
        noFaults 1768300000001]
      migrate_idempotent [of migratedBrowser noFaults 1768300000001]
    by (simp add: migratedBrowser_def)
qed

lemma filterValid_eq:
  "filterValid tasks =
     (if None \<in> set tasks then Inl (Error nullPropertyMessage)
      else Inr (filter validRecord (List.map_filter (\<lambda>t. t) tasks)))"
proof (induction tasks)
  case Nil
  then show ?case by (simp add: List.map_filter_simps)
next
  case (Cons t tasks)
  then show ?case by (cases t) (auto simp: List.map_filter_simps)
qed

text \<open>
  C7, as the code has it. While the migration is pending, a run in which an exception is
  raised, at whichever step, returns failure with the message of that exception and
  leaves the legacy data as it was. It leaves the flag unset, as it found it, when the
  exception comes from reading the legacy data, validating, the bulk insert or the write
  of the flag; when it comes from erasing the legacy data, the flag has been set just
  before and stays set. A run in which no exception is raised reports success.
\<close>

theorem migrate_catches_exceptions:
  assumes "migrationFlag b \<noteq> Some ''true''"
  shows "(firstException faults b = Some (step, msg) \<longrightarrow>
           (\<exists>b'. migrateFromLocalStorage faults now b = (failed msg, b') \<and>
                 legacyTasks b' = legacyTasks b \<and>
                 migrationFlag b' = (if step = EraseLegacy then Some ''true'' else migrationFlag b))) \<and>
         (firstException faults b = None \<longrightarrow>
            success (fst (migrateFromLocalStorage faults now b)))"
proof (cases "legacyTasks b")
  case None
  with assms show ?thesis
    by (auto simp: firstException_def stepsOfRun_def thrownAt_def legacyRecords_def
        recordsToMigrate_def List.map_filter_simps migrateFromLocalStorage_def
        markDoneNothingToMigrate_def failed_def succeeded_def split: option.splits)
next
  case (Some data)
  show ?thesis
  proof (cases data)
    case EmptyText
    with Some assms show ?thesis
      by (auto simp: firstException_def stepsOfRun_def thrownAt_def legacyRecords_def
          recordsToMigrate_def List.map_filter_simps migrateFromLocalStorage_def
          markDoneNothingToMigrate_def failed_def succeeded_def split: option.splits)
  next
    case (Malformed m)
    with Some assms show ?thesis
      by (auto simp: firstException_def stepsOfRun_def thrownAt_def legacyRecords_def
          recordsToMigrate_def List.map_filter_simps migrateFromLocalStorage_def failed_def)
  next
    case NotAnArray
    with Some assms show ?thesis
      by (auto simp: firstException_def stepsOfRun_def thrownAt_def legacyRecords_def
          recordsToMigrate_def List.map_filter_simps migrateFromLocalStorage_def
          markDoneNothingToMigrate_def failed_def succeeded_def split: option.splits)
  next
    case (TaskArray tasks)
    show ?thesis
    proof (cases "tasks = []")
      case True
      with TaskArray Some assms show ?thesis
        by (auto simp: firstException_def stepsOfRun_def thrownAt_def legacyRecords_def
            recordsToMigrate_def List.map_filter_simps migrateFromLocalStorage_def
            markDoneNothingToMigrate_def failed_def succeeded_def split: option.splits)
    next
      case False
      note nonempty = this
      show ?thesis
      proof (cases "None \<in> set tasks")
        case True
        with nonempty TaskArray Some assms show ?thesis
          by (auto simp: firstException_def stepsOfRun_def thrownAt_def legacyRecords_def
              migrateFromLocalStorage_def filterValid_eq failed_def)
      next
        case False
        define valid where "valid = filter validRecord (List.map_filter (\<lambda>t. t) tasks)"
        have fv: "filterValid tasks = Inr valid"
          using False by (simp add: filterValid_eq valid_def)
        have rm: "recordsToMigrate b = valid" "legacyRecords b = tasks"
          using Some TaskArray by (simp_all add: recordsToMigrate_def legacyRecords_def valid_def)
        have ra: "thrownAt faults b ReadLegacy = None" "thrownAt faults b Validate = None"
          using Some TaskArray False by (simp_all add: thrownAt_def legacyRecords_def)
        show ?thesis
        proof (cases "valid = []")
          case True
          with fv rm ra nonempty TaskArray Some assms show ?thesis
            by (auto simp: firstException_def stepsOfRun_def thrownAt_def
                migrateFromLocalStorage_def markDoneNothingToMigrate_def failed_def succeeded_def
                split: option.splits)
        next
          case False
          with fv rm ra nonempty TaskArray Some assms show ?thesis
            by (auto simp: firstException_def stepsOfRun_def thrownAt_def
                migrateFromLocalStorage_def IndexedDB_bulkUpdate_records_def Let_def
                failed_def succeeded_def split: option.splits)
        qed
      qed
    qed
  qed
qed

theorem migrate_catches_exceptions_witness:
  "migrationFlag sampleBrowser \<noteq> Some ''true'' \<and>
   firstException (noFaults\<lparr>bulkUpdateError := Some ''QuotaExceededError''\<rparr>) sampleBrowser
     = Some (BulkInsert, ''QuotaExceededError'') \<and>
   migrateFromLocalStorage (noFaults\<lparr>bulkUpdateError := Some ''QuotaExceededError''\<rparr>) 1768300000000
       sampleBrowser = (failed ''QuotaExceededError'', sampleBrowser) \<and>
   firstException (noFaults\<lparr>removeItemError := Some ''SecurityError''\<rparr>) sampleBrowser
     = Some (EraseLegacy, ''SecurityError'') \<and>
   fst (migrateFromLocalStorage (noFaults\<lparr>removeItemError := Some ''SecurityError''\<rparr>) 1768300000000
          sampleBrowser) = failed ''SecurityError'' \<and>
   firstException noFaults sampleBrowser = None \<and>
   success (fst (migrateFromLocalStorage noFaults 1768300000000 sampleBrowser))"
proof -
  have pending: "migrationFlag sampleBrowser \<noteq> Some ''true''"
    by (simp add: sampleBrowser_def)
  have e1: "firstException (noFaults\<lparr>bulkUpdateError := Some ''QuotaExceededError''\<rparr>) sampleBrowser
     = Some (BulkInsert, ''QuotaExceededError'')"
    by (simp add: firstException_def stepsOfRun_def thrownAt_def legacyRecords_def
        recordsToMigrate_def List.map_filter_simps sampleBrowser_def sampleRecord_def
        validRecord_def truthy_def noFaults_def)
  have e2: "firstException (noFaults\<lparr>removeItemError := Some ''SecurityError''\<rparr>) sampleBrowser
     = Some (EraseLegacy, ''SecurityError'')"
    by (simp add: firstException_def stepsOfRun_def thrownAt_def legacyRecords_def
        recordsToMigrate_def List.map_filter_simps sampleBrowser_def sampleRecord_def
        validRecord_def truthy_def noFaults_def)
  have e3: "firstException noFaults sampleBrowser = None"
    by (simp add: firstException_def stepsOfRun_def thrownAt_def legacyRecords_def
        recordsToMigrate_def List.map_filter_simps sampleBrowser_def sampleRecord_def
        validRecord_def truthy_def noFaults_def)
  have r1: "migrateFromLocalStorage (noFaults\<lparr>bulkUpdateError := Some ''QuotaExceededError''\<rparr>)
       1768300000000 sampleBrowser = (failed ''QuotaExceededError'', sampleBrowser)"
    by (simp add: migrateFromLocalStorage_def sampleBrowser_def noFaults_def
        sampleRecord_def validRecord_def truthy_def IndexedDB_bulkUpdate_records_def Let_def)
  show ?thesis
    using pending e1 e2 e3 r1
      migrate_catches_exceptions [OF pending, of "noFaults\<lparr>removeItemError := Some ''SecurityError''\<rparr>"
        EraseLegacy "''SecurityError''" 1768300000000]
      migrate_catches_exceptions [OF pending, of noFaults _ _ 1768300000000]
      migrate_catches_exceptions [OF pending, of "noFaults\<lparr>bulkUpdateError := Some ''QuotaExceededError''\<rparr>"
        BulkInsert "''QuotaExceededError''" 1768300000000]
    by auto
qed

text \<open>
  When erasing the legacy data throws, the call reports failure and the flag is set: it
  does not remain unset.
\<close>

theorem migrate_failure_flag_counterexample:
  "migrationFlag sampleBrowser = None \<and>
   \<not> success (fst (migrateFromLocalStorage (noFaults\<lparr>removeItemError := Some ''SecurityError''\<rparr>)
                      1768300000000 sampleBrowser)) \<and>
   migrationFlag (snd (migrateFromLocalStorage (noFaults\<lparr>removeItemError := Some ''SecurityError''\<rparr>)
                      1768300000000 sampleBrowser)) = Some ''true''"
  by (simp add: migrateFromLocalStorage_def sampleBrowser_def noFaults_def failed_def
      sampleRecord_def validRecord_def truthy_def IndexedDB_bulkUpdate_records_def Let_def)

lemma filterValid_all_invalid:
  "\<forall>t \<in> set tasks. \<exists>r. t = Some r \<and> \<not> validRecord r \<Longrightarrow> filterValid tasks = Inr []"
proof (induction tasks)
  case Nil
  then show ?case by simp
next
  case (Cons t tasks)
  then obtain r where "t = Some r" "\<not> validRecord r" by auto
  with Cons show ?case by simp
qed

text \<open>
  C10. When the legacy key holds a nonempty array of records none of which has a
  non-empty id, a non-empty content and a non-empty status, and the flag can be written,
  the migration returns success with count 0 and leaves the flag set, and it erases
  nothing: the legacy data and the new store are as before. From then on the migration
  is not needed by its own test, and any further calls change nothing, so the records
  stay under the legacy key and never reach the new store.
\<close>

theorem migrate_all_invalid:
  assumes "legacyTasks b = Some (TaskArray tasks)"
    and "tasks \<noteq> []"
    and "\<forall>t \<in> set tasks. \<exists>r. t = Some r \<and> \<not> validRecord r"
    and "setItemError faults = None"
  shows "migrateFromLocalStorage faults now b = (succeeded 0, b\<lparr>migrationFlag := Some ''true''\<rparr>) \<and>
         legacyTasks (b\<lparr>migrationFlag := Some ''true''\<rparr>) = Some (TaskArray tasks) \<and>
         \<not> isMigrationNeeded (b\<lparr>migrationFlag := Some ''true''\<rparr>) \<and>
         migrateRepeatedly calls (b\<lparr>migrationFlag := Some ''true''\<rparr>) = b\<lparr>migrationFlag := Some ''true''\<rparr>"
proof -
  have valid: "filterValid tasks = Inr []"
    using assms(3) by (rule filterValid_all_invalid)
  have run: "migrateFromLocalStorage faults now b = (succeeded 0, b\<lparr>migrationFlag := Some ''true''\<rparr>)"
  proof (cases "migrationFlag b = Some ''true''")
    case True
    then have "b\<lparr>migrationFlag := Some ''true''\<rparr> = b" by simp
    with True show ?thesis by (simp add: migrate_when_done)
  next
    case False
    with assms valid show ?thesis
      by (simp add: migrateFromLocalStorage_def markDoneNothingToMigrate_def)
  qed
  have again: "migrateRepeatedly calls (b\<lparr>migrationFlag := Some ''true''\<rparr>) = b\<lparr>migrationFlag := Some ''true''\<rparr>"
    by (rule migrateRepeatedly_done) simp
  show ?thesis
    using run again assms(1) by (simp add: isMigrationNeeded_def)
qed

theorem migrate_all_invalid_witness:
  "legacyTasks invalidOnlyBrowser
     = Some (TaskArray [Some (sampleRecord (Some ''b'') None),
                        Some (sampleRecord (Some []) (Some ''No identifier''))]) \<and>
   migrateFromLocalStorage noFaults 1768300000000 invalidOnlyBrowser
     = (succeeded 0, invalidOnlyBrowser\<lparr>migrationFlag := Some ''true''\<rparr>) \<and>
   \<not> isMigrationNeeded (invalidOnlyBrowser\<lparr>migrationFlag := Some ''true''\<rparr>) \<and>
   migrateRepeatedly [(noFaults, 1768300000001), (noFaults, 1768300000002)]
       (invalidOnlyBrowser\<lparr>migrationFlag := Some ''true''\<rparr>)
     = invalidOnlyBrowser\<lparr>migrationFlag := Some ''true''\<rparr>"
proof -
  have h1: "legacyTasks invalidOnlyBrowser
     = Some (TaskArray [Some (sampleRecord (Some ''b'') None),
                        Some (sampleRecord (Some []) (Some ''No identifier''))])"
    by (simp add: invalidOnlyBrowser_def)
  have h2: "[Some (sampleRecord (Some ''b'') None),
             Some (sampleRecord (Some []) (Some ''No identifier''))] \<noteq> []"
    by simp
  have h3: "\<forall>t \<in> set [Some (sampleRecord (Some ''b'') None),
                         Some (sampleRecord (Some []) (Some ''No identifier''))].
              \<exists>r. t = Some r \<and> \<not> validRecord r"
    by (simp add: validRecord_def truthy_def sampleRecord_def)
  have h4: "setItemError noFaults = None"
    by (simp add: noFaults_def)
  show ?thesis
    using h1 migrate_all_invalid [OF h1 h2 h3 h4, of 1768300000000
        "[(noFaults, 1768300000001), (noFaults, 1768300000002)]"]
    by simp
qed


section \<open>The calendar of \<^verbatim>\<open>Date\<close>\<close>

lemma div_bounds: "0 < d \<Longrightarrow> d * (x div d) \<le> x \<and> x < d * (x div d) + (d::int)"
  by (metis add.commute mult.commute div_mult_mod_eq pos_mod_bound pos_mod_sign
      add_less_cancel_left le_add_same_cancel1)

text \<open>The first day of a year lies within two days of the mean: 365.2425 days a year.\<close>

lemma DayFromYear_400:
  "146097 * y - 287811596 \<le> 400 * DayFromYear y \<and> 400 * DayFromYear y \<le> 146097 * y - 287810501"
proof -
  define a where "a = (y - 1969) div 4"
  define b where "b = (y - 1901) div 100"
  define c where "c = (y - 1601) div 400"
  have a: "4 * a \<le> y - 1969" "y - 1969 < 4 * a + 4"
    unfolding a_def using div_bounds [of 4 "y - 1969"] by simp_all
  have b: "100 * b \<le> y - 1901" "y - 1901 < 100 * b + 100"
    unfolding b_def using div_bounds [of 100 "y - 1901"] by simp_all
  have c: "400 * c \<le> y - 1601" "y - 1601 < 400 * c + 400"
    unfolding c_def using div_bounds [of 400 "y - 1601"] by simp_all
  have "400 * DayFromYear y = 146000 * y - 287620000 + 400 * a - 400 * b + 400 * c"
    unfolding DayFromYear_def a_def b_def c_def by (simp add: algebra_simps)
  then show ?thesis using a b c by linarith
qed

lemma DayFromYear_strict_mono: "y < y' \<Longrightarrow> DayFromYear y < DayFromYear y'"
  using DayFromYear_400 [of y] DayFromYear_400 [of y'] by linarith

lemma DayFromYear_le_iff: "DayFromYear y \<le> DayFromYear y' \<longleftrightarrow> y \<le> y'"
  using DayFromYear_strict_mono [of y y'] DayFromYear_strict_mono [of y' y]
  by (cases y y' rule: linorder_cases) auto

text \<open>A year has at least 363 and at most 367 days by the estimate; that is enough here.\<close>

lemma year_length_bounds:
  "DayFromYear y + 363 \<le> DayFromYear (y + 1) \<and> DayFromYear (y + 1) \<le> DayFromYear y + 367"
proof -
  have "146097 * (y + 1) = 146097 * y + 146097" by simp
  then show ?thesis
    using DayFromYear_400 [of y] DayFromYear_400 [of "y + 1"] by linarith
qed

text \<open>\<open>YearFromDay\<close> is the year of ECMA-262: the one that holds the day.\<close>

lemma YearFromDay_holds:
  "DayFromYear (YearFromDay n) \<le> n \<and> n < DayFromYear (YearFromDay n + 1)"
proof -
  define q where "q = (400 * n) div 146097"
  have q: "146097 * q \<le> 400 * n" "400 * n < 146097 * q + 146097"
    unfolding q_def using div_bounds [of 146097 "400 * n"] by simp_all
  have e1: "146097 * (1970 + q - 1) = 146097 * q + 287664993" by simp
  have e2: "146097 * (1970 + q + 1 + 1) = 146097 * q + 288103284" by simp
  have lo: "DayFromYear (1970 + q - 1) \<le> n"
    using DayFromYear_400 [of "1970 + q - 1"] q e1 by linarith
  have hi: "n < DayFromYear (1970 + q + 1 + 1)"
    using DayFromYear_400 [of "1970 + q + 1 + 1"] q e2 by linarith
  show ?thesis
    using lo hi unfolding YearFromDay_def q_def [symmetric] Let_def
    by (auto simp: not_less not_le)
qed

lemma YearFromDay_unique:
  assumes "DayFromYear y \<le> n" and "n < DayFromYear (y + 1)"
  shows "YearFromDay n = y"
proof (cases "YearFromDay n" y rule: linorder_cases)
  case less
  then have "DayFromYear (YearFromDay n + 1) \<le> DayFromYear y"
    by (simp add: DayFromYear_le_iff)
  with assms(1) YearFromDay_holds [of n] show ?thesis by linarith
next
  case equal
  then show ?thesis .
next
  case greater
  then have "DayFromYear (y + 1) \<le> DayFromYear (YearFromDay n)"
    by (simp add: DayFromYear_le_iff)
  with assms(2) YearFromDay_holds [of n] show ?thesis by linarith
qed

section \<open>Days and weeks\<close>

lemma dayOf_times: "dayOf (n * msPerDay) = n"
  using msPerDay_pos by (simp add: dayOf_def)

lemma startOfDay_dayOf: "startOfDay t = dayOf t * msPerDay"
  by (simp add: startOfDay_def dayOf_def)

lemma dayOf_addDays: "dayOf (addDays t k) = dayOf t + k"
  using msPerDay_pos by (simp add: dayOf_def addDays_def)

lemma addDays_times: "addDays (n * msPerDay) k = (n + k) * msPerDay"
  by (simp add: addDays_def algebra_simps)

text \<open>
  Day 0 was a Thursday, so the Thursdays are the multiples of 7, and the Thursday of the
  week (Monday to Sunday) of day \<open>n\<close> is \<open>7 * ((n + 3) div 7)\<close>.
\<close>

lemma thursday_near: "n - 3 \<le> 7 * ((n + 3) div 7) \<and> 7 * ((n + 3) div 7) \<le> n + (3::int)"
  using div_bounds [of 7 "n + 3"] by linarith

lemma div_unique: "0 < d \<Longrightarrow> d * q \<le> x \<Longrightarrow> x < d * q + d \<Longrightarrow> x div d = (q::int)"
  by (rule int_div_pos_eq [of x d q "x - d * q"]) simp_all

lemma thursday_by_getDay:
  "n + 4 - (if (n + 4) mod 7 = 0 then 7 else (n + 4) mod 7) = 7 * ((n + 3) div (7::int))"
proof -
  define a where "a = (n + 4) div 7"
  define r where "r = (n + 4) mod 7"
  have r: "0 \<le> r" "r < 7" by (simp_all add: r_def)
  have d: "n + 4 = 7 * a + r" by (simp add: a_def r_def)
  show ?thesis
  proof (cases "r = 0")
    case True
    have "(n + 3) div 7 = a - 1"
      using d True by (intro div_unique) simp_all
    with d True show ?thesis unfolding r_def [symmetric] by simp
  next
    case False
    have "(n + 3) div 7 = a"
      using d r False by (intro div_unique) simp_all
    with d False show ?thesis unfolding r_def [symmetric] by simp
  qed
qed


text \<open>Weeks counted from a day \<open>j\<close>: the first Thursday on or after \<open>j\<close>, and the
  Thursdays that follow it.\<close>

lemma first_thursday_near: "j \<le> 7 * ((j + 6) div 7) \<and> 7 * ((j + 6) div 7) \<le> j + (6::int)"
  using div_bounds [of 7 "j + 6"] by linarith



section \<open>ISO weeks in days\<close>

text \<open>
  The year the local-time constructor makes of its first argument.
\<close>

lemma newDateJanuary_day:
  "newDateJanuary y k = (DayFromYear (if 0 \<le> y \<and> y \<le> 99 then 1900 + y else y) + (k - 1)) * msPerDay"
  by (simp add: newDateJanuary_def Let_def)

text \<open>
  \<^verbatim>\<open>getISOWeek\<close> on days: the year is the year of the Thursday of the week, and the week
  number is the ceiling taken of the instants of that Thursday and of the first day of the
  year the constructor builds from it.
\<close>

lemma getISOWeek_instants:
  "getISOWeek z date =
     (let t = 7 * ((dayOf date + 3) div 7);
          y = YearFromDay t;
          yr = (if 0 \<le> y \<and> y \<le> 99 then 1900 + y else y)
      in (y, \<lceil>((real_of_int (getTime z (t * msPerDay) - getTime z (DayFromYear yr * msPerDay))
                   / 86400000) + 1) / 7\<rceil>))"
proof -
  define n where "n = dayOf date"
  define t where "t = 7 * ((n + 3) div 7)"
  have day: "getDay (startOfDay date) = (n + 4) mod 7"
    by (simp add: getDay_def startOfDay_dayOf dayOf_times n_def)
  have thu: "addDays (startOfDay date) (4 - (if (n + 4) mod 7 = 0 then 7 else (n + 4) mod 7)) = t * msPerDay"
  proof -
    have "n + (4 - (if (n + 4) mod 7 = 0 then 7 else (n + 4) mod 7)) = t"
      using thursday_by_getDay [of n] unfolding t_def by (simp split: if_splits)
    then show ?thesis
      unfolding startOfDay_dayOf n_def [symmetric] addDays_times by simp
  qed
  have yr: "getFullYear (t * msPerDay) = YearFromDay t"
    by (simp add: getFullYear_def dayOf_times)
  show ?thesis
    unfolding getISOWeek_def Let_def day thu yr newDateJanuary_day n_def [symmetric] t_def [symmetric]
    by simp
qed

text \<open>The ceiling of the source, in whole numbers.\<close>

lemma ceil_weeks:
  "\<lceil>((real_of_int x / 86400000) + 1) / 7\<rceil> = - ((- (x + 86400000)) div 604800000)"
proof -
  have "((real_of_int x / 86400000) + 1) / 7 = real_of_int (x + 86400000) / real_of_int 604800000"
    by (simp add: field_simps)
  then show ?thesis
    by (simp only: ceiling_divide_eq_div)
qed

text \<open>
  Where the instants of two local midnights \<open>n\<close> days apart differ by \<open>n\<close> days less a
  part of a day, the ceiling counts the weeks as it does for \<open>n\<close> whole days. Where they
  differ by more than \<open>n\<close> days it counts one week more whenever \<open>n + 1\<close> is a multiple
  of 7.
\<close>

lemma week_number_steady:
  assumes "- 86400000 < e" and "e \<le> 0"
  shows "- ((- (n * 86400000 + e + 86400000)) div 604800000) = n div 7 + (1::int)"
proof -
  define k where "k = n div 7"
  have k: "7 * k \<le> n" "n < 7 * k + 7"
    unfolding k_def using div_bounds [of 7 n] by simp_all
  have "(- (n * 86400000 + e + 86400000)) div 604800000 = - (k + 1)"
    using assms k by (intro div_unique) simp_all
  then show ?thesis by (simp add: k_def)
qed

lemma week_number_late:
  assumes "0 < e" and "e < 86400000" and "(n + 1) mod 7 = 0"
  shows "- ((- (n * 86400000 + e + 86400000)) div 604800000) = n div 7 + (2::int)"
proof -
  define k where "k = n div 7"
  define m where "m = (n + 1) div 7"
  have m: "n + 1 = 7 * m"
    using div_mult_mod_eq [of "n + 1" 7] assms(3) unfolding m_def by linarith
  have "n div 7 = m - 1"
    using m by (intro div_unique) simp_all
  moreover have "(- (n * 86400000 + e + 86400000)) div 604800000 = - (m + 1)"
    using assms(1,2) m by (intro div_unique) simp_all
  ultimately show ?thesis by simp
qed

lemma getMonday_days: "getMonday date = (7 * ((dayOf date + 3) div 7) - 3) * msPerDay"
proof -
  define n where "n = dayOf date"
  have "n + (- ((n + 4) mod 7) + (if (n + 4) mod 7 = 0 then - 6 else 1)) = 7 * ((n + 3) div 7) - 3"
    using thursday_by_getDay [of n] by (simp split: if_splits)
  then show ?thesis
    unfolding getMonday_def Let_def getDay_def startOfDay_dayOf dayOf_addDays n_def [symmetric]
    by simp
qed

lemma getSunday_days:
  "getSunday date = (7 * ((dayOf date + 3) div 7) + 3) * msPerDay + (msPerDay - 1)"
proof -
  have "addDays (getMonday date) 6 = (7 * ((dayOf date + 3) div 7) + 3) * msPerDay"
    unfolding getMonday_days addDays_times by simp
  then show ?thesis
    unfolding getSunday_def endOfDay_eq startOfDay_dayOf by (simp add: dayOf_times)
qed

lemma thursdayOf_days: "thursdayOf date = 7 * ((dayOf date + 3) div 7) * msPerDay"
  by (simp add: thursdayOf_def getMonday_days addDays_times)

lemma offsetNotBelowNewYear_days:
  "offsetNotBelowNewYear z date =
     (let t = 7 * ((dayOf date + 3) div 7);
          y = YearFromDay t;
          yr = (if 0 \<le> y \<and> y \<le> 99 then 1900 + y else y)
      in z (DayFromYear yr * msPerDay) \<le> z (t * msPerDay)
         \<and> z (t * msPerDay) < z (DayFromYear yr * msPerDay) + msPerDay)"
  by (simp add: offsetNotBelowNewYear_def Let_def thursdayOf_days getFullYear_def dayOf_times
      newDateJanuary_day)

lemma offsetNotBelowNewYear_fixedZone: "offsetNotBelowNewYear (fixedZone c) date"
  using msPerDay_pos by (simp add: offsetNotBelowNewYear_days Let_def fixedZone_def)

text \<open>
  Under the condition on the zone the week number counts the Thursdays from the first day
  of the year the constructor builds.
\<close>

lemma getISOWeek_days:
  assumes "offsetNotBelowNewYear z date"
  shows "getISOWeek z date =
     (let t = 7 * ((dayOf date + 3) div 7);
          y = YearFromDay t;
          yr = (if 0 \<le> y \<and> y \<le> 99 then 1900 + y else y)
      in (y, (t - DayFromYear yr) div 7 + 1))"
proof -
  define t where "t = 7 * ((dayOf date + 3) div 7)"
  define j where "j = DayFromYear (if 0 \<le> YearFromDay t \<and> YearFromDay t \<le> 99
                                   then 1900 + YearFromDay t else YearFromDay t)"
  define e where "e = z (j * msPerDay) - z (t * msPerDay)"
  have e: "- 86400000 < e" "e \<le> 0"
    using assms unfolding offsetNotBelowNewYear_days Let_def t_def [symmetric] j_def [symmetric] e_def
    by (simp_all add: msPerDay_def)
  have "getTime z (t * msPerDay) - getTime z (j * msPerDay) = (t - j) * 86400000 + e"
    by (simp add: getTime_def e_def msPerDay_def algebra_simps)
  then have "\<lceil>((real_of_int (getTime z (t * msPerDay) - getTime z (j * msPerDay)) / 86400000) + 1) / 7\<rceil>
               = (t - j) div 7 + 1"
    unfolding ceil_weeks using week_number_steady [OF e, of "t - j"] by simp
  then show ?thesis
    unfolding getISOWeek_instants Let_def t_def [symmetric] j_def [symmetric] by simp
qed


lemma getWeekInfo_fields:
  "year (getWeekInfo z d) = fst (getISOWeek z d) \<and> week (getWeekInfo z d) = snd (getISOWeek z d) \<and>
   startDate (getWeekInfo z d) = getMonday d \<and> endDate (getWeekInfo z d) = getSunday d"
  by (simp add: getWeekInfo_def split: prod.splits)

text \<open>Every week \<^verbatim>\<open>getWeekInfo\<close> builds is a window of whole days.\<close>

lemma getWeekInfo_dayAligned: "dayAligned (getWeekInfo z d)"
proof -
  have s: "((7 * ((dayOf d + 3) div 7) - 3) * msPerDay) mod msPerDay = 0" by simp
  have "((7 * ((dayOf d + 3) div 7) + 3) * msPerDay + (msPerDay - 1)) mod msPerDay
          = (msPerDay - 1) mod msPerDay"
    by (metis mod_mult_self3)
  also have "\<dots> = msPerDay - 1"
    using msPerDay_pos by (simp add: msPerDay_def)
  finally show ?thesis
    unfolding dayAligned_def getWeekInfo_fields [THEN conjunct2, THEN conjunct2, THEN conjunct1]
      getWeekInfo_fields [THEN conjunct2, THEN conjunct2, THEN conjunct2]
      getMonday_days getSunday_days
    using s by simp
qed

lemma getWeekInfoForFilter_dayAligned: "dayAligned (getWeekInfoForFilter z now flt)"
  by (cases flt)
    (simp_all add: getWeekInfoForFilter_def getCurrentWeekInfo_def getNextWeek_def
      getPreviousWeek_def Let_def getWeekInfo_dayAligned)


text \<open>
  The year-boundary rule, outside the years 0 to 99 and under the condition on the zone: a
  date of year \<open>c\<close> whose Thursday
  falls in year \<open>c + 1\<close> gets week 1 of \<open>c + 1\<close>, and one whose Thursday falls in year
  \<open>c - 1\<close> gets week 52 or 53 of \<open>c - 1\<close>.
\<close>

lemma getISOWeek_rolls_forward:
  assumes "YearFromDay (dayOf date) = c"
    and "YearFromDay (7 * ((dayOf date + 3) div 7)) = c + 1"
    and "\<not> (0 \<le> c + 1 \<and> c + 1 \<le> 99)"
    and "offsetNotBelowNewYear z date"
  shows "getISOWeek z date = (c + 1, 1)"
proof -
  define n where "n = dayOf date"
  define t where "t = 7 * ((n + 3) div 7)"
  have n: "n < DayFromYear (c + 1)"
    using YearFromDay_holds [of n] assms(1) by (simp add: n_def)
  have t: "DayFromYear (c + 1) \<le> t"
    using YearFromDay_holds [of t] assms(2) by (simp add: t_def n_def)
  have near: "t \<le> n + 3" using thursday_near [of n] by (simp add: t_def)
  have "(t - DayFromYear (c + 1)) div 7 = 0"
    using n t near by (intro div_unique) simp_all
  moreover have "(if 0 \<le> c + 1 \<and> c + 1 \<le> 99 then 1900 + (c + 1) else c + 1) = c + 1"
    using assms(3) by (rule if_not_P)
  moreover have "YearFromDay t = c + 1"
    using assms(2) by (simp add: t_def n_def)
  ultimately show ?thesis
    unfolding getISOWeek_days [OF assms(4)] Let_def n_def [symmetric] t_def [symmetric]
    by (simp only: add_0 prod.inject simp_thms)
qed

lemma getISOWeek_rolls_back:
  assumes "YearFromDay (dayOf date) = c"
    and "YearFromDay (7 * ((dayOf date + 3) div 7)) = c - 1"
    and "\<not> (0 \<le> c - 1 \<and> c - 1 \<le> 99)"
    and "offsetNotBelowNewYear z date"
  shows "fst (getISOWeek z date) = c - 1 \<and>
         (snd (getISOWeek z date) = 52 \<or> snd (getISOWeek z date) = 53)"
proof -
  define n where "n = dayOf date"
  define t where "t = 7 * ((n + 3) div 7)"
  define w where "w = (t - DayFromYear (c - 1)) div 7"
  have n: "DayFromYear c \<le> n"
    using YearFromDay_holds [of n] assms(1) by (simp add: n_def)
  have t: "t < DayFromYear c"
    using YearFromDay_holds [of t] assms(2) by (simp add: t_def n_def)
  have near: "n - 3 \<le> t" using thursday_near [of n] by (simp add: t_def)
  have len: "DayFromYear (c - 1) + 363 \<le> DayFromYear c" "DayFromYear c \<le> DayFromYear (c - 1) + 367"
    using year_length_bounds [of "c - 1"] by simp_all
  have w: "7 * w \<le> t - DayFromYear (c - 1)" "t - DayFromYear (c - 1) < 7 * w + 7"
    unfolding w_def using div_bounds [of 7 "t - DayFromYear (c - 1)"] by simp_all
  have "51 \<le> w \<and> w \<le> 52"
    using n t near len w by linarith
  then have "w + 1 = 52 \<or> w + 1 = 53" by linarith
  moreover have "(if 0 \<le> c - 1 \<and> c - 1 \<le> 99 then 1900 + (c - 1) else c - 1) = c - 1"
    using assms(3) by (rule if_not_P)
  moreover have "YearFromDay t = c - 1"
    using assms(2) by (simp add: t_def n_def)
  ultimately show ?thesis
    unfolding getISOWeek_days [OF assms(4)] Let_def n_def [symmetric] t_def [symmetric] w_def
    by (simp only: fst_conv snd_conv simp_thms)
qed


section \<open>Week strings\<close>








lemma parseInt_digits_2: "parseInt [a, b] = 10 * (int (of_char a) - 48) + (int (of_char b) - 48)"
  by (simp add: parseInt_def)

lemma parseInt_digits_4:
  "parseInt [a, b, c, d] =
     1000 * (int (of_char a) - 48) + 100 * (int (of_char b) - 48)
       + 10 * (int (of_char c) - 48) + (int (of_char d) - 48)"
  by (simp add: parseInt_def)






lemma digit_range: "isDigit c \<Longrightarrow> 0 \<le> int (of_char c) - 48 \<and> int (of_char c) - 48 \<le> 9"
  by (auto simp: isDigit_def)

text \<open>The groups of a match read as a year from 0 to 9999 and a week number from 0 to 99.\<close>

lemma matchISOWeek_ranges:
  assumes "matchISOWeek s = Some (ys, ws)"
  shows "0 \<le> parseInt ys \<and> parseInt ys \<le> 9999 \<and> 0 \<le> parseInt ws \<and> parseInt ws \<le> 99"
proof -
  from assms obtain y1 y2 y3 y4 w1 w2 where
    s: "ys = [y1, y2, y3, y4]" "ws = [w1, w2]"
      "isDigit y1" "isDigit y2" "isDigit y3" "isDigit y4" "isDigit w1" "isDigit w2"
    by (cases s rule: matchISOWeek.cases) (auto split: if_splits)
  have four: "\<And>a b c d :: int. 0 \<le> a \<and> a \<le> 9 \<Longrightarrow> 0 \<le> b \<and> b \<le> 9 \<Longrightarrow> 0 \<le> c \<and> c \<le> 9 \<Longrightarrow>
      0 \<le> d \<and> d \<le> 9 \<Longrightarrow> 0 \<le> 1000 * a + 100 * b + 10 * c + d \<and> 1000 * a + 100 * b + 10 * c + d \<le> 9999"
    by (elim conjE, intro conjI) linarith+
  have two: "\<And>a b :: int. 0 \<le> a \<and> a \<le> 9 \<Longrightarrow> 0 \<le> b \<and> b \<le> 9 \<Longrightarrow>
      0 \<le> 10 * a + b \<and> 10 * a + b \<le> 99"
    by (elim conjE, intro conjI) linarith+
  show ?thesis
    unfolding s(1,2) parseInt_digits_4 parseInt_digits_2
    using four [OF digit_range [OF s(3)] digit_range [OF s(4)] digit_range [OF s(5)] digit_range [OF s(6)]]
      two [OF digit_range [OF s(7)] digit_range [OF s(8)]] by blast
qed


lemma digitChar_table:
  "digitChar 0 = CHR ''0''" "digitChar 1 = CHR ''1''" "digitChar (Suc 0) = CHR ''1''"
  "digitChar 2 = CHR ''2''" "digitChar 3 = CHR ''3''" "digitChar 4 = CHR ''4''"
  "digitChar 5 = CHR ''5''" "digitChar 6 = CHR ''6''" "digitChar 7 = CHR ''7''"
  "digitChar 8 = CHR ''8''" "digitChar 9 = CHR ''9''"
  by code_simp+


text \<open>
  The matcher of the model accepts the strings of the pattern, no others, and its groups
  are the first four and the last two characters.
\<close>

lemma below_ten:
  "k < 10 \<Longrightarrow> k = 0 \<or> k = 1 \<or> k = 2 \<or> k = 3 \<or> k = 4 \<or> k = 5 \<or> k = 6 \<or> k = 7 \<or> k = 8 \<or> k = (9::nat)"
  by arith

lemma digitChar_member: "k < 10 \<Longrightarrow> digitChar k \<in> set ''0123456789''"
  using below_ten [of k] by (auto simp: digitChar_table)

lemma isDigit_iff: "isDigit c \<longleftrightarrow> c \<in> set ''0123456789''"
proof
  assume d: "isDigit c"
  define k where "k = (of_char c :: nat) - 48"
  have k: "k < 10" "of_char c = 48 + k" using d by (auto simp: isDigit_def k_def)
  have "c = char_of (of_char c :: nat)" by simp
  then have "c = digitChar k" unfolding k(2) digitChar_def .
  then show "c \<in> set ''0123456789''" using digitChar_member [OF k(1)] by simp
next
  assume "c \<in> set ''0123456789''"
  then show "isDigit c" by (auto simp: isDigit_def)
qed

lemma matchISOWeek_length: "matchISOWeek s = Some r \<Longrightarrow> length s = 8"
  by (cases s rule: matchISOWeek.cases) (auto split: if_splits)

lemma length_8: "length s = 8 \<Longrightarrow> \<exists>a b c d e f g h. s = [a, b, c, d, e, f, g, h]"
  by (auto simp: numeral_eq_Suc length_Suc_conv)

lemma matchISOWeek_pattern:
  "matchISOWeek s = (if matchesISOWeekPattern s then Some (take 4 s, drop 6 s) else None)"
proof (cases "length s = 8")
  case True
  then obtain a b c d e f g h where s: "s = [a, b, c, d, e, f, g, h]"
    using length_8 by blast
  show ?thesis
    unfolding s by (auto simp: matchesISOWeekPattern_def isDigit_iff)
next
  case False
  then have "matchISOWeek s = None"
    using matchISOWeek_length [of s] by (cases "matchISOWeek s") auto
  with False show ?thesis by (simp add: matchesISOWeekPattern_def)
qed
section \<open>Parsing a week string\<close>

lemma constructor_year_not_two_digit:
  "\<not> (0 \<le> (if 0 \<le> y \<and> y \<le> 99 then 1900 + y else y)
      \<and> (if 0 \<le> y \<and> y \<le> 99 then 1900 + y else y) \<le> (99::int))"
  by auto

text \<open>
  January 4th of a year lies in the week of the year's first Thursday, which
  \<^verbatim>\<open>getWeekInfo\<close> numbers 1 under the condition on the zone; so \<^verbatim>\<open>parseISOWeek\<close> returns the week whose Monday is
  \<open>w - 1\<close> weeks after the Monday before that Thursday. The year is the one the
  constructor builds from the four digits.
\<close>

lemma week_of_jan4:
  assumes "\<not> (0 \<le> yr \<and> yr \<le> 99)"
    and "offsetNotBelowNewYear z ((DayFromYear yr + 3) * msPerDay)"
  shows "getISOWeek z ((DayFromYear yr + 3) * msPerDay) = (yr, 1)"
proof -
  define j where "j = DayFromYear yr"
  define f where "f = 7 * ((j + 6) div 7)"
  have f: "j \<le> f" "f \<le> j + 6"
    using first_thursday_near [of j] by (simp_all add: f_def)
  have "f < DayFromYear (yr + 1)"
    using f year_length_bounds [of yr] by (simp add: j_def)
  with f have y: "YearFromDay f = yr"
    by (intro YearFromDay_unique) (simp_all add: j_def)
  have q: "(if 0 \<le> yr \<and> yr \<le> 99 then 1900 + yr else yr) = yr"
    using assms(1) by (rule if_not_P)
  have w: "(f - j) div 7 = 0"
    using f by (intro div_unique) simp_all
  have t: "7 * ((dayOf ((j + 3) * msPerDay) + 3) div 7) = f"
    by (simp add: dayOf_times f_def)
  show ?thesis
    unfolding getISOWeek_days [OF assms(2)]
    unfolding Let_def j_def [symmetric] t y q
    using w by (simp add: j_def)
qed

lemma parseISOWeek_days:
  assumes "matchISOWeek s = Some (ys, ws)"
    and "offsetNotBelowNewYear z (newDateJanuary (parseInt ys) 4)"
  shows "parseISOWeek z s =
     Inr (getWeekInfo z
       ((7 * ((DayFromYear (if 0 \<le> parseInt ys \<and> parseInt ys \<le> 99 then 1900 + parseInt ys
                            else parseInt ys) + 6) div 7)
         - 3 + (parseInt ws - 1) * 7) * msPerDay))"
proof -
  define yr where "yr = (if 0 \<le> parseInt ys \<and> parseInt ys \<le> 99 then 1900 + parseInt ys else parseInt ys)"
  define j where "j = DayFromYear yr"
  have nq: "\<not> (0 \<le> yr \<and> yr \<le> 99)"
    unfolding yr_def by (rule constructor_year_not_two_digit)
  have jan4: "newDateJanuary (parseInt ys) 4 = (j + 3) * msPerDay"
    by (simp add: newDateJanuary_day yr_def j_def)
  have zone: "offsetNotBelowNewYear z ((DayFromYear yr + 3) * msPerDay)"
    using assms(2) unfolding jan4 j_def .
  have wk: "week (getWeekInfo z ((j + 3) * msPerDay)) = 1"
    using week_of_jan4 [OF nq zone] by (simp add: getWeekInfo_fields j_def)
  have mon: "startDate (getWeekInfo z ((j + 3) * msPerDay)) = (7 * ((j + 6) div 7) - 3) * msPerDay"
    by (simp add: getWeekInfo_fields getMonday_days dayOf_times add.commute)
  show ?thesis
    unfolding parseISOWeek_def assms(1) option.case prod.case Let_def jan4 wk mon addDays_times
      yr_def [symmetric] j_def [symmetric]
    by simp
qed

lemma thursday_of_target:
  "7 * ((dayOf ((7 * f - 3 + (w - 1) * 7) * msPerDay) + 3) div 7) = 7 * f + 7 * (w - 1)"
proof -
  have "(7 * f - 3 + (w - 1) * 7 + 3) div 7 = f + (w - 1)"
    by (intro div_unique) simp_all
  then show ?thesis by (simp add: dayOf_times)
qed



text \<open>
  Without the condition the parser still returns a week on every match, and the year of
  the week a date lies in does not depend on the zone.
\<close>

lemma parseISOWeek_returns:
  "matchISOWeek s = Some (ys, ws) \<Longrightarrow> \<exists>info. parseISOWeek z s = Inr info"
  by (simp add: parseISOWeek_def Let_def)

lemma getWeekInfo_year:
  "year (getWeekInfo z date) = YearFromDay (7 * ((dayOf date + 3) div 7))"
  by (simp add: getWeekInfo_fields getISOWeek_instants Let_def)

text \<open>Whole weeks and the quotient by 7.\<close>

lemma weeks_le_iff: "7 * a \<le> x \<longleftrightarrow> a \<le> x div (7::int)"
  using div_bounds [of 7 x] by linarith

text \<open>
  The weeks of a year are the Thursdays of the year: the \<open>w\<close>-th Thursday from the first
  one of year \<open>yr\<close> is a day of that year exactly for \<open>w\<close> from 1 to the number of the
  year's weeks.
\<close>

lemma thursday_in_year_iff:
  "YearFromDay (7 * ((DayFromYear yr + 6) div 7) + 7 * (w - 1)) = yr
     \<longleftrightarrow> 1 \<le> w \<and> w \<le> isoWeeksInYear yr"
proof -
  define j where "j = DayFromYear yr"
  define f where "f = (j + 6) div 7"
  define t where "t = 7 * f + 7 * (w - 1)"
  have f: "j \<le> 7 * f" "7 * f \<le> j + 6"
    using first_thursday_near [of j] by (simp_all add: f_def)
  have "YearFromDay t = yr \<longleftrightarrow> j \<le> t \<and> t < DayFromYear (yr + 1)"
    using YearFromDay_holds [of t] YearFromDay_unique [of yr t] unfolding j_def by auto
  also have "j \<le> t \<longleftrightarrow> 1 \<le> w"
    using f unfolding t_def by auto
  also have "t < DayFromYear (yr + 1) \<longleftrightarrow> 7 * (w - 1) \<le> DayFromYear (yr + 1) - 1 - 7 * f"
    unfolding t_def by auto
  also have "\<dots> \<longleftrightarrow> w \<le> isoWeeksInYear yr"
    unfolding weeks_le_iff isoWeeksInYear_def f_def j_def by auto
  finally show ?thesis
    unfolding t_def f_def j_def .
qed

text \<open>A year has 365 days or more, so it has 52 weeks or 53.\<close>

lemma year_at_least_365: "DayFromYear y + 365 \<le> DayFromYear (y + 1)"
proof -
  define a where "a = (y - 1969) div 4"
  define a' where "a' = (y + 1 - 1969) div 4"
  define b where "b = (y - 1901) div 100"
  define b' where "b' = (y + 1 - 1901) div 100"
  define c where "c = (y - 1601) div 400"
  define c' where "c' = (y + 1 - 1601) div 400"
  have a: "4 * a \<le> y - 1969" "y - 1969 < 4 * a + 4"
    unfolding a_def using div_bounds [of 4 "y - 1969"] by simp_all
  have a': "4 * a' \<le> y - 1968" "y - 1968 < 4 * a' + 4"
    unfolding a'_def using div_bounds [of 4 "y + 1 - 1969"] by simp_all
  have b: "100 * b \<le> y - 1901" "y - 1901 < 100 * b + 100"
    unfolding b_def using div_bounds [of 100 "y - 1901"] by simp_all
  have b': "100 * b' \<le> y - 1900" "y - 1900 < 100 * b' + 100"
    unfolding b'_def using div_bounds [of 100 "y + 1 - 1901"] by simp_all
  have c: "400 * c \<le> y - 1601" "y - 1601 < 400 * c + 400"
    unfolding c_def using div_bounds [of 400 "y - 1601"] by simp_all
  have c': "400 * c' \<le> y - 1600" "y - 1600 < 400 * c' + 400"
    unfolding c'_def using div_bounds [of 400 "y + 1 - 1601"] by simp_all
  have len: "DayFromYear (y + 1) = DayFromYear y + 365 + (a' - a) - (b' - b) + (c' - c)"
    unfolding DayFromYear_def a_def a'_def b_def b'_def c_def c'_def by simp
  have am: "a \<le> a'" using a a' by linarith
  have cm: "c \<le> c'" using c c' by linarith
  have bm: "b' \<le> b + 1" using b b' by linarith
  show ?thesis
  proof (cases "b' \<le> b")
    case True
    then show ?thesis using len am cm by linarith
  next
    case False
    then have e: "y - 1900 = 100 * b'" using b b' bm by linarith
    have "(y + 1 - 1969) div 4 = 25 * b' - 17"
      using e by (intro div_unique) simp_all
    moreover have "(y - 1969) div 4 = 25 * b' - 18"
      using e by (intro div_unique) simp_all
    ultimately have "a' - a = 1" by (simp add: a_def a'_def)
    then show ?thesis using len cm bm by linarith
  qed
qed

lemma isoWeeksInYear_range: "52 \<le> isoWeeksInYear y \<and> isoWeeksInYear y \<le> 53"
proof -
  define f where "f = (DayFromYear y + 6) div 7"
  define q where "q = (DayFromYear (y + 1) - 1 - 7 * f) div 7"
  have f: "DayFromYear y \<le> 7 * f" "7 * f \<le> DayFromYear y + 6"
    using first_thursday_near [of "DayFromYear y"] by (simp_all add: f_def)
  have q: "7 * q \<le> DayFromYear (y + 1) - 1 - 7 * f" "DayFromYear (y + 1) - 1 - 7 * f < 7 * q + 7"
    unfolding q_def using div_bounds [of 7 "DayFromYear (y + 1) - 1 - 7 * f"] by simp_all
  have len: "DayFromYear y + 365 \<le> DayFromYear (y + 1)" "DayFromYear (y + 1) \<le> DayFromYear y + 367"
    using year_at_least_365 [of y] year_length_bounds [of y] by simp_all
  have "51 \<le> q" using f q len by linarith
  moreover have "q \<le> 52" using f q len by linarith
  ultimately show ?thesis
    unfolding isoWeeksInYear_def f_def [symmetric] q_def [symmetric] by simp
qed
section \<open>Properties of the calendar engine\<close>

text \<open>
  The reference values of the specification, in every zone that meets the condition at
  the date: 2024-12-30 lies in week 1 of 2025, and 2023-01-01 in week 52 of 2022.
\<close>

lemma getISOWeek_reference_values:
  "(offsetNotBelowNewYear z 1735516800000 \<longrightarrow> getISOWeek z 1735516800000 = (2025, 1)) \<and>
   (offsetNotBelowNewYear z 1672531200000 \<longrightarrow> getISOWeek z 1672531200000 = (2022, 52))"
proof -
  have a: "(let t = 7 * ((dayOf 1735516800000 + 3) div 7);
                y = YearFromDay t;
                yr = (if 0 \<le> y \<and> y \<le> 99 then 1900 + y else y)
            in (y, (t - DayFromYear yr) div 7 + 1)) = (2025, 1)"
    by code_simp
  have b: "(let t = 7 * ((dayOf 1672531200000 + 3) div 7);
                y = YearFromDay t;
                yr = (if 0 \<le> y \<and> y \<le> 99 then 1900 + y else y)
            in (y, (t - DayFromYear yr) div 7 + 1)) = (2022, 52)"
    by code_simp
  show ?thesis
    using getISOWeek_days [of z 1735516800000] getISOWeek_days [of z 1672531200000]
    unfolding a b by blast
qed

text \<open>
  Where the offset at the Thursday is below the offset at the start of the year, the
  ceiling of the source counts a week too many for the years that start on a Friday: in
  the southern zone \<^verbatim>\<open>getISOWeek\<close> gives Thursday 2021-07-01 the week 27, which is week 26
  of that year.
\<close>

lemma getISOWeek_southern_winter:
  "getISOWeek southernZone 1625097600000 = (2021, 27) \<and>
   getISOWeek (fixedZone 0) 1625097600000 = (2021, 26) \<and>
   \<not> offsetNotBelowNewYear southernZone 1625097600000"
proof -
  have a: "getISOWeek southernZone 1625097600000 = (2021, 27)"
    unfolding getISOWeek_instants ceil_weeks by code_simp
  have b: "getISOWeek (fixedZone 0) 1625097600000 = (2021, 26)"
    unfolding getISOWeek_instants ceil_weeks by code_simp
  have c: "\<not> offsetNotBelowNewYear southernZone 1625097600000"
    unfolding offsetNotBelowNewYear_days by code_simp
  show ?thesis using a b c by (intro conjI)
qed

text \<open>
  C4 at Monday 0096-12-31, the day before the year 97 starts, whose Thursday is
  0097-01-03: the date belongs to week 1 of the year 97. In every zone of one offset
  \<^verbatim>\<open>getISOWeek\<close> returns the year 97 with the week number -99136, because
  \<^verbatim>\<open>new Date(97, 0, 1)\<close> is the first of January 1997.
\<close>

theorem getISOWeek_two_digit_year:
  "DayFromYear 97 = - 684098 \<and>
   YearFromDay (- 684099) = 96 \<and> YearFromDay (- 684099 + 3) = 97 \<and>
   getDay (- 59106153600000) = 1 \<and>
   dayOf (- 59106153600000) = - 684099 \<and>
   (\<forall>c. getISOWeek (fixedZone c) (- 59106153600000) = (97, - 99136))"
proof -
  have a: "DayFromYear 97 = - 684098" by code_simp
  have b: "YearFromDay (- 684099) = 96" by code_simp
  have c: "YearFromDay (- 684099 + 3) = 97" by code_simp
  have d: "getDay (- 59106153600000) = 1" by code_simp
  have e: "dayOf (- 59106153600000) = - 684099" by code_simp
  have f: "(let t = 7 * ((dayOf (- 59106153600000) + 3) div 7);
                y = YearFromDay t;
                yr = (if 0 \<le> y \<and> y \<le> 99 then 1900 + y else y)
            in (y, (t - DayFromYear yr) div 7 + 1)) = (97, - 99136)"
    by code_simp
  have g: "getISOWeek (fixedZone c) (- 59106153600000) = (97, - 99136)" for c
    unfolding getISOWeek_days [OF offsetNotBelowNewYear_fixedZone] f ..
  show ?thesis
    by (intro conjI allI a b c d e g)
qed




text \<open>
  C9. \<^verbatim>\<open>parseISOWeek\<close> throws its error exactly on the strings that are not of the
  pattern \<^verbatim>\<open>^\d{4}-W\d{2}$\<close>. On every string of the pattern it returns a week, whatever
  the two digits of the week number are; no range is checked. In a zone that meets the
  condition at January 4th of the year of the string, the week it returns has the year of
  the string exactly when the year is 100 or more and the week number is one the year
  has, from 1 to 52 or 53: a week number the year does not have comes back as a week of a
  different year.
\<close>

theorem parseISOWeek_raises_iff_no_match:
  "(\<not> matchesISOWeekPattern s \<longrightarrow>
      parseISOWeek z s = Inl (Error (''Invalid ISO week format: '' @ s))) \<and>
   (matchesISOWeekPattern s \<longrightarrow>
      (\<exists>info. parseISOWeek z s = Inr info \<and>
         (offsetNotBelowNewYear z (newDateJanuary (parseInt (take 4 s)) 4) \<longrightarrow>
            (year info = parseInt (take 4 s) \<longleftrightarrow>
               100 \<le> parseInt (take 4 s) \<and> 1 \<le> parseInt (drop 6 s)
                 \<and> parseInt (drop 6 s) \<le> isoWeeksInYear (parseInt (take 4 s))))))"
proof (intro conjI impI)
  assume "\<not> matchesISOWeekPattern s"
  then have "matchISOWeek s = None"
    by (simp add: matchISOWeek_pattern)
  then show "parseISOWeek z s = Inl (Error (''Invalid ISO week format: '' @ s))"
    by (simp add: parseISOWeek_def)
next
  assume "matchesISOWeekPattern s"
  then have m: "matchISOWeek s = Some (take 4 s, drop 6 s)"
    by (simp add: matchISOWeek_pattern)
  define y where "y = parseInt (take 4 s)"
  define w where "w = parseInt (drop 6 s)"
  define yr where "yr = (if 0 \<le> y \<and> y \<le> 99 then 1900 + y else y)"
  define j where "j = DayFromYear yr"
  define f where "f = (j + 6) div 7"
  define t where "t = 7 * f + 7 * (w - 1)"
  obtain info where parsed: "parseISOWeek z s = Inr info"
    using parseISOWeek_returns [OF m] by blast
  have y0: "0 \<le> y" and w0: "0 \<le> w"
    using matchISOWeek_ranges [OF m] by (simp_all add: y_def w_def)
  have "year info = y \<longleftrightarrow> 100 \<le> y \<and> 1 \<le> w \<and> w \<le> isoWeeksInYear y"
    if zone: "offsetNotBelowNewYear z (newDateJanuary y 4)"
  proof -
    have "parseISOWeek z s = Inr (getWeekInfo z ((7 * f - 3 + (w - 1) * 7) * msPerDay))"
      using zone unfolding y_def
      by (simp only: parseISOWeek_days [OF m] f_def j_def yr_def y_def w_def)
    then have info: "info = getWeekInfo z ((7 * f - 3 + (w - 1) * 7) * msPerDay)"
      using parsed by simp
    have yi: "year info = YearFromDay t"
      unfolding info getWeekInfo_year thursday_of_target t_def ..
    show ?thesis
    proof (cases "y \<le> 99")
      case True
      then have j1900: "j = DayFromYear (1900 + y)"
        using y0 by (simp add: j_def yr_def)
      have "146097 * (1900 + y) = 146097 * y + 277584300" "146097 * (y + 1) = 146097 * y + 146097"
        by simp_all
      then have "DayFromYear (y + 1) + 7 \<le> j"
        unfolding j1900 using DayFromYear_400 [of "1900 + y"] DayFromYear_400 [of "y + 1"] by linarith
      moreover have "j \<le> 7 * f"
        using first_thursday_near [of j] by (simp add: f_def)
      ultimately have "DayFromYear (y + 1) \<le> t"
        using w0 by (simp add: t_def)
      then have "YearFromDay t \<noteq> y"
        using YearFromDay_holds [of t] by auto
      with True show ?thesis by (simp add: yi)
    next
      case False
      then have q: "yr = y" by (simp add: yr_def)
      have "YearFromDay t = y \<longleftrightarrow> 1 \<le> w \<and> w \<le> isoWeeksInYear y"
        using thursday_in_year_iff [of y w] unfolding t_def f_def j_def q .
      with False show ?thesis by (simp add: yi)
    qed
  qed
  then show "\<exists>info. parseISOWeek z s = Inr info \<and>
         (offsetNotBelowNewYear z (newDateJanuary (parseInt (take 4 s)) 4) \<longrightarrow>
            (year info = parseInt (take 4 s) \<longleftrightarrow>
               100 \<le> parseInt (take 4 s) \<and> 1 \<le> parseInt (drop 6 s)
                 \<and> parseInt (drop 6 s) \<le> isoWeeksInYear (parseInt (take 4 s))))"
    using parsed unfolding y_def w_def by blast
qed

theorem parseISOWeek_raises_iff_no_match_witness:
  "\<not> matchesISOWeekPattern ''2026-W1'' \<and>
   parseISOWeek (fixedZone 0) ''2026-W1'' = Inl (Error ''Invalid ISO week format: 2026-W1'') \<and>
   \<not> matchesISOWeekPattern ''2026/W03'' \<and>
   parseISOWeek (fixedZone 0) ''2026/W03'' = Inl (Error ''Invalid ISO week format: 2026/W03'') \<and>
   matchesISOWeekPattern ''2026-W00'' \<and>
   offsetNotBelowNewYear (fixedZone 0) (newDateJanuary (parseInt (take 4 ''2026-W00'')) 4) \<and>
   parseISOWeek (fixedZone 0) ''2026-W00''
     = Inr \<lparr>year = 2025, week = 52, startDate = 1766361600000, endDate = 1766966399999\<rparr> \<and>
   matchesISOWeekPattern ''2026-W99'' \<and>
   parseISOWeek (fixedZone 0) ''2026-W99''
     = Inr \<lparr>year = 2027, week = 46, startDate = 1826236800000, endDate = 1826841599999\<rparr> \<and>
   matchesISOWeekPattern ''2025-W53'' \<and> isoWeeksInYear 2025 = 52 \<and>
   parseISOWeek (fixedZone 0) ''2025-W53''
     = Inr \<lparr>year = 2026, week = 1, startDate = 1766966400000, endDate = 1767571199999\<rparr> \<and>
   matchesISOWeekPattern ''2026-W53'' \<and> isoWeeksInYear 2026 = 53 \<and>
   (\<exists>info. parseISOWeek (fixedZone 0) ''2026-W53'' = Inr info \<and> year info = 2026)"
proof -
  have n1: "\<not> matchesISOWeekPattern ''2026-W1''" by (simp add: matchesISOWeekPattern_def)
  have n2: "\<not> matchesISOWeekPattern ''2026/W03''" by (simp add: matchesISOWeekPattern_def)
  have m0: "matchesISOWeekPattern ''2026-W00''" by (simp add: matchesISOWeekPattern_def)
  have m99: "matchesISOWeekPattern ''2026-W99''" by (simp add: matchesISOWeekPattern_def)
  have m53: "matchesISOWeekPattern ''2025-W53''" by (simp add: matchesISOWeekPattern_def)
  have m53': "matchesISOWeekPattern ''2026-W53''" by (simp add: matchesISOWeekPattern_def)
  have z: "offsetNotBelowNewYear (fixedZone 0) d" for d
    by (rule offsetNotBelowNewYear_fixedZone)
  have e1: "parseISOWeek (fixedZone 0) ''2026-W1'' = Inl (Error ''Invalid ISO week format: 2026-W1'')"
    using parseISOWeek_raises_iff_no_match [of "''2026-W1''" "fixedZone 0"] n1 by simp
  have e2: "parseISOWeek (fixedZone 0) ''2026/W03'' = Inl (Error ''Invalid ISO week format: 2026/W03'')"
    using parseISOWeek_raises_iff_no_match [of "''2026/W03''" "fixedZone 0"] n2 by simp
  have y26: "parseInt ''2026'' = 2026" and y25: "parseInt ''2025'' = 2025"
    and w0: "parseInt ''00'' = 0" and w99: "parseInt ''99'' = 99" and w53: "parseInt ''53'' = 53"
    by (simp_all add: parseInt_def)
  have i25: "isoWeeksInYear 2025 = 52" by code_simp
  have i26: "isoWeeksInYear 2026 = 53" by code_simp
  have gw: "getWeekInfo (fixedZone 0) d
              = (let t = 7 * ((dayOf d + 3) div 7);
                     y = YearFromDay t;
                     yr = (if 0 \<le> y \<and> y \<le> 99 then 1900 + y else y)
                 in \<lparr>year = y, week = (t - DayFromYear yr) div 7 + 1,
                     startDate = (t - 3) * msPerDay, endDate = (t + 3) * msPerDay + (msPerDay - 1)\<rparr>)" for d
    by (simp add: getWeekInfo_def getISOWeek_days [OF z] Let_def getMonday_days getSunday_days)
  have g0: "matchISOWeek ''2026-W00'' = Some (''2026'', ''00'')" by code_simp
  have g99: "matchISOWeek ''2026-W99'' = Some (''2026'', ''99'')" by code_simp
  have g53: "matchISOWeek ''2025-W53'' = Some (''2025'', ''53'')" by code_simp
  have "getWeekInfo (fixedZone 0)
       ((7 * ((DayFromYear (if 0 \<le> (2026::int) \<and> (2026::int) \<le> 99 then 1900 + 2026 else 2026) + 6) div 7)
         - 3 + (0 - 1) * 7) * msPerDay)
     = \<lparr>year = 2025, week = 52, startDate = 1766361600000, endDate = 1766966399999\<rparr>"
    unfolding gw by code_simp
  then have p0: "parseISOWeek (fixedZone 0) ''2026-W00''
     = Inr \<lparr>year = 2025, week = 52, startDate = 1766361600000, endDate = 1766966399999\<rparr>"
    using parseISOWeek_days [OF g0 z] unfolding y26 w0 by (simp only:)
  have "getWeekInfo (fixedZone 0)
       ((7 * ((DayFromYear (if 0 \<le> (2026::int) \<and> (2026::int) \<le> 99 then 1900 + 2026 else 2026) + 6) div 7)
         - 3 + (99 - 1) * 7) * msPerDay)
     = \<lparr>year = 2027, week = 46, startDate = 1826236800000, endDate = 1826841599999\<rparr>"
    unfolding gw by code_simp
  then have p99: "parseISOWeek (fixedZone 0) ''2026-W99''
     = Inr \<lparr>year = 2027, week = 46, startDate = 1826236800000, endDate = 1826841599999\<rparr>"
    using parseISOWeek_days [OF g99 z] unfolding y26 w99 by (simp only:)
  have "getWeekInfo (fixedZone 0)
       ((7 * ((DayFromYear (if 0 \<le> (2025::int) \<and> (2025::int) \<le> 99 then 1900 + 2025 else 2025) + 6) div 7)
         - 3 + (53 - 1) * 7) * msPerDay)
     = \<lparr>year = 2026, week = 1, startDate = 1766966400000, endDate = 1767571199999\<rparr>"
    unfolding gw by code_simp
  then have p53: "parseISOWeek (fixedZone 0) ''2025-W53''
     = Inr \<lparr>year = 2026, week = 1, startDate = 1766966400000, endDate = 1767571199999\<rparr>"
    using parseISOWeek_days [OF g53 z] unfolding y25 w53 by (simp only:)
  have t26: "parseInt (take 4 ''2026-W53'') = 2026" "parseInt (drop 6 ''2026-W53'') = 53"
    by (simp_all add: parseInt_def)
  have "\<exists>info. parseISOWeek (fixedZone 0) ''2026-W53'' = Inr info \<and>
          (year info = 2026 \<longleftrightarrow> (100::int) \<le> 2026 \<and> (1::int) \<le> 53 \<and> (53::int) \<le> 53)"
    using parseISOWeek_raises_iff_no_match [of "''2026-W53''" "fixedZone 0"] m53' z
    unfolding t26 i26 by blast
  then have p53': "\<exists>info. parseISOWeek (fixedZone 0) ''2026-W53'' = Inr info \<and> year info = 2026"
    by simp
  show ?thesis
    by (intro conjI n1 n2 e1 e2 m0 m99 m53 m53' z p0 p99 p53 p53' i25 i26)
qed

end
